theory Spec2Isabelle
  imports Complex_Main
begin

section \<open>Geometry utilities (Vector2D and Utils)\<close>

text \<open>
  JavaScript numbers are modelled as mathematical reals; the fields \<open>x\<close> and \<open>y\<close> of a
  \<open>Vector2D\<close> are called \<open>vx\<close> and \<open>vy\<close>. The methods of the source mutate the receiver
  and return it; here each one returns the new value.
\<close>

record Vector2D =
  vx :: real
  vy :: real

definition add :: "Vector2D \<Rightarrow> Vector2D \<Rightarrow> Vector2D" where
  "add v other = \<lparr>vx = vx v + vx other, vy = vy v + vy other\<rparr>"

definition multiply :: "Vector2D \<Rightarrow> real \<Rightarrow> Vector2D" where
  "multiply v scalar = \<lparr>vx = vx v * scalar, vy = vy v * scalar\<rparr>"

definition magnitude :: "Vector2D \<Rightarrow> real" where
  "magnitude v = sqrt (vx v * vx v + vy v * vy v)"

definition normalize_v :: "Vector2D \<Rightarrow> Vector2D" where
  "normalize_v v =
     (let mag = magnitude v
      in if mag > 0 then \<lparr>vx = vx v / mag, vy = vy v / mag\<rparr> else v)"

definition distanceTo :: "Vector2D \<Rightarrow> Vector2D \<Rightarrow> real" where
  "distanceTo v other =
     (let dx = vx v - vx other; dy = vy v - vy other
      in sqrt (dx * dx + dy * dy))"

definition directionTo :: "Vector2D \<Rightarrow> Vector2D \<Rightarrow> Vector2D" where
  "directionTo v other = normalize_v \<lparr>vx = vx other - vx v, vy = vy other - vy v\<rparr>"

definition clamp :: "real \<Rightarrow> real \<Rightarrow> real \<Rightarrow> real" where
  "clamp val lo hi = min (max val lo) hi"

record Rect =
  rx :: real
  ry :: real
  rwidth :: real
  rheight :: real

definition pointInRect :: "Vector2D \<Rightarrow> Rect \<Rightarrow> bool" where
  "pointInRect point rect \<longleftrightarrow>
     vx point \<ge> rx rect \<and> vx point \<le> rx rect + rwidth rect \<and>
     vy point \<ge> ry rect \<and> vy point \<le> ry rect + rheight rect"


section \<open>Entities\<close>

datatype team = Player | Enemy

text \<open>
  A combatant's \<open>target\<close> is a reference to a unit or a tower object owned by the game.
  The reference is represented by the position of the object in the owning list. Within a
  tick the lists only grow at the end, and \<open>findTarget\<close> reassigns the field before every
  use, so the position identifies the object.
\<close>

datatype target_ref = UnitRef nat | TowerRef nat

record UnitStats =
  st_health :: real
  st_damage :: real
  st_speed :: real
  st_range :: real
  st_radius :: real

text \<open>
  The type of a unit, and of a card, is a string, and is looked up in an object literal
  with \<open>table[type] || table.knight\<close>. The lookup finds an entry of the table, or a
  member that every object inherits from \<open>Object.prototype\<close>, or nothing; only nothing
  falls back to the knight's entry. \<open>inheritedKeys\<close> are the names of the inherited
  members.
\<close>

definition inheritedKeys :: "string list" where
  "inheritedKeys =
     [''constructor'', ''hasOwnProperty'', ''isPrototypeOf'', ''propertyIsEnumerable'',
      ''toLocaleString'', ''toString'', ''valueOf'', ''__proto__'',
      ''__defineGetter__'', ''__defineSetter__'', ''__lookupGetter__'', ''__lookupSetter__'']"

text \<open>
  The statistics of a unit type. The constructor of \<open>Unit\<close> is called by \<open>spawnUnit\<close>
  only, with the type of a card whose cost the player has paid or with a type that
  \<open>enemyAI\<close> takes from its own list, never with an inherited name (lemma
  \<open>unit_types_never_inherited\<close>); \<open>getUnitStats\<close> is the lookup for the other names.
\<close>

definition knightStats :: UnitStats where
  "knightStats = \<lparr>st_health = 1200, st_damage = 150, st_speed = 30, st_range = 40, st_radius = 15\<rparr>"

definition getUnitStats :: "string \<Rightarrow> UnitStats" where
  "getUnitStats ty =
     (if ty = ''knight'' then knightStats
      else if ty = ''archer'' then
        \<lparr>st_health = 400, st_damage = 100, st_speed = 40, st_range = 100, st_radius = 12\<rparr>
      else if ty = ''giant'' then
        \<lparr>st_health = 3000, st_damage = 200, st_speed = 20, st_range = 50, st_radius = 25\<rparr>
      else if ty = ''wizard'' then
        \<lparr>st_health = 600, st_damage = 250, st_speed = 35, st_range = 120, st_radius = 12\<rparr>
      else knightStats)"

record Unit =
  position :: Vector2D
  utype :: string
  team :: team
  alive :: bool
  maxHealth :: real
  health :: real
  damage :: real
  speed :: real
  attackRange :: real
  radius :: real
  velocity :: Vector2D
  target :: "target_ref option"
  lastAttack :: int
  attackCooldown :: int
  animationTime :: real
  facing :: int

definition newUnit :: "Vector2D \<Rightarrow> string \<Rightarrow> team \<Rightarrow> Unit" where
  "newUnit pos ty tm =
     (let stats = getUnitStats ty
      in \<lparr>position = pos, utype = ty, team = tm, alive = True,
          maxHealth = st_health stats, health = st_health stats,
          damage = st_damage stats, speed = st_speed stats,
          attackRange = st_range stats,
          radius = (if st_radius stats = 0 then 15 else st_radius stats),
          velocity = \<lparr>vx = 0, vy = 0\<rparr>, target = None,
          lastAttack = 0, attackCooldown = 1000,
          animationTime = 0, facing = (if tm = Player then - 1 else 1)\<rparr>)"

definition takeDamage :: "Unit \<Rightarrow> real \<Rightarrow> Unit" where
  "takeDamage u amount =
     (let h = health u - amount
      in if h \<le> 0 then u\<lparr>health := 0, alive := False\<rparr> else u\<lparr>health := h\<rparr>)"

record Tower =
  tw_position :: Vector2D
  tw_team :: team
  tw_alive :: bool
  tw_maxHealth :: real
  tw_health :: real
  tw_damage :: real
  tw_attackRange :: real
  tw_radius :: real
  tw_target :: "target_ref option"
  tw_lastAttack :: int
  tw_attackCooldown :: int

definition newTower :: "Vector2D \<Rightarrow> team \<Rightarrow> Tower" where
  "newTower pos tm =
     \<lparr>tw_position = pos, tw_team = tm, tw_alive = True,
      tw_maxHealth = 2500, tw_health = 2500, tw_damage = 200,
      tw_attackRange = 150, tw_radius = 30,
      tw_target = None, tw_lastAttack = 0, tw_attackCooldown = 800\<rparr>"

definition tw_takeDamage :: "Tower \<Rightarrow> real \<Rightarrow> Tower" where
  "tw_takeDamage t amount =
     (let h = tw_health t - amount
      in if h \<le> 0 then t\<lparr>tw_health := 0, tw_alive := False\<rparr> else t\<lparr>tw_health := h\<rparr>)"


text \<open>
  A projectile is an object literal that carries its own \<open>update\<close> method. The literal
  built by \<open>Unit.createProjectile\<close> and the one built by \<open>Tower.attack\<close> differ in that
  method; \<open>p_update\<close> records which of the two the object carries.
\<close>

datatype projectile_update = UnitProjectileUpdate | TowerProjectileUpdate

record Projectile =
  p_position :: Vector2D
  p_target :: Vector2D
  p_speed :: real
  p_damage :: real
  p_team :: team
  p_alive :: bool
  p_type :: string
  p_update :: projectile_update

definition offScreen :: "Vector2D \<Rightarrow> bool" where
  "offScreen pos \<longleftrightarrow> vx pos < 0 \<or> vx pos > 800 \<or> vy pos < 0 \<or> vy pos > 600"

definition projectile_update :: "real \<Rightarrow> Projectile \<Rightarrow> Projectile" where
  "projectile_update deltaTime p =
     (let direction = directionTo (p_position p) (p_target p);
          movement = multiply direction (p_speed p * deltaTime);
          p1 = p\<lparr>p_position := add (p_position p) movement\<rparr>;
          distance = distanceTo (p_position p1) (p_target p1);
          p2 = (if distance < (case p_update p1 of UnitProjectileUpdate \<Rightarrow> 10
                                 | TowerProjectileUpdate \<Rightarrow> 15)
                then p1\<lparr>p_alive := False\<rparr> else p1)
      in if offScreen (p_position p2) then p2\<lparr>p_alive := False\<rparr> else p2)"


section \<open>The game\<close>

record Game =
  canvasWidth :: real
  canvasHeight :: real
  running :: bool
  units :: "Unit list"
  towers :: "Tower list"
  projectiles :: "Projectile list"
  playerElixir :: real
  maxElixir :: real
  elixirRegenRate :: real
  lastElixirRegen :: real
  selectedCard :: "string option"
  draggingCard :: bool
  mousePos :: Vector2D
  isMouseDown :: bool
  playerZone :: Rect
  enemyZone :: Rect

text \<open>
  The constructor reads the size of the canvas element (\<open>w0\<close>, \<open>h0\<close>) for the two zones
  before \<open>setupCanvas\<close> resizes the canvas to the width \<open>cw\<close> of its container and to the
  height 500; the towers are placed on the resized canvas.
\<close>

definition newGame :: "real \<Rightarrow> real \<Rightarrow> real \<Rightarrow> Game" where
  "newGame w0 h0 cw =
     \<lparr>canvasWidth = cw, canvasHeight = 500, running = False,
      units = [],
      towers = [newTower \<lparr>vx = cw / 2, vy = 500 - 50\<rparr> Player,
                newTower \<lparr>vx = cw / 2, vy = 50\<rparr> Enemy],
      projectiles = [],
      playerElixir = 10, maxElixir = 10, elixirRegenRate = 1, lastElixirRegen = 0,
      selectedCard = None, draggingCard = False,
      mousePos = \<lparr>vx = 0, vy = 0\<rparr>, isMouseDown = False,
      playerZone = \<lparr>rx = 0, ry = h0 / 2, rwidth = w0, rheight = h0 / 2\<rparr>,
      enemyZone = \<lparr>rx = 0, ry = 0, rwidth = w0, rheight = h0 / 2\<rparr>\<rparr>"

datatype error = TypeError

text \<open>
  The argument passed for the parameter \<open>game\<close> of \<open>Unit.attack\<close>: the game object, or
  nothing (\<open>undefined\<close>).
\<close>

datatype game_arg = GameRef | Undefined

definition targetPosition :: "Game \<Rightarrow> target_ref \<Rightarrow> Vector2D" where
  "targetPosition g r =
     (case r of UnitRef j \<Rightarrow> position (units g ! j)
              | TowerRef k \<Rightarrow> tw_position (towers g ! k))"

definition targetAlive :: "Game \<Rightarrow> target_ref \<Rightarrow> bool" where
  "targetAlive g r =
     (case r of UnitRef j \<Rightarrow> alive (units g ! j)
              | TowerRef k \<Rightarrow> tw_alive (towers g ! k))"

definition target_takeDamage :: "target_ref \<Rightarrow> real \<Rightarrow> Game \<Rightarrow> Game" where
  "target_takeDamage r amount g =
     (case r of
        UnitRef j \<Rightarrow> g\<lparr>units := (units g)[j := takeDamage (units g ! j) amount]\<rparr>
      | TowerRef k \<Rightarrow> g\<lparr>towers := (towers g)[k := tw_takeDamage (towers g ! k) amount]\<rparr>)"


subsection \<open>Unit behaviour\<close>

text \<open>\<open>closestDistance\<close> starts at \<open>Infinity\<close>, written \<open>None\<close>.\<close>

definition lessThanClosest :: "real \<Rightarrow> real option \<Rightarrow> bool" where
  "lessThanClosest distance closestDistance =
     (case closestDistance of None \<Rightarrow> True | Some d \<Rightarrow> distance < d)"

fun scanUnits ::
  "Unit \<Rightarrow> Unit list \<Rightarrow> nat \<Rightarrow> nat option \<Rightarrow> real option \<Rightarrow> nat option \<times> real option" where
  "scanUnits self [] k closestTarget closestDistance = (closestTarget, closestDistance)"
| "scanUnits self (unit # rest) k closestTarget closestDistance =
     (if team unit \<noteq> team self \<and> alive unit then
        (let distance = distanceTo (position self) (position unit)
         in if lessThanClosest distance closestDistance
            then scanUnits self rest (Suc k) (Some k) (Some distance)
            else scanUnits self rest (Suc k) closestTarget closestDistance)
      else scanUnits self rest (Suc k) closestTarget closestDistance)"

fun findIndex :: "('a \<Rightarrow> bool) \<Rightarrow> 'a list \<Rightarrow> nat \<Rightarrow> nat option" where
  "findIndex P [] k = None"
| "findIndex P (x # xs) k = (if P x then Some k else findIndex P xs (Suc k))"

definition findTarget :: "nat \<Rightarrow> Game \<Rightarrow> Game" where
  "findTarget i g =
     (let self = units g ! i;
          closestTarget =
            (case fst (scanUnits self (units g) 0 None None) of
               Some j \<Rightarrow> Some (UnitRef j)
             | None \<Rightarrow>
                 (case findIndex (\<lambda>tower. tw_team tower \<noteq> team self \<and> tw_alive tower)
                         (towers g) 0 of
                    Some k \<Rightarrow> Some (TowerRef k)
                  | None \<Rightarrow> None))
      in g\<lparr>units := (units g)[i := self\<lparr>target := closestTarget\<rparr>]\<rparr>)"

definition move :: "nat \<Rightarrow> real \<Rightarrow> Game \<Rightarrow> Game" where
  "move i deltaTime g =
     (let self = units g ! i
      in case target self of
           None \<Rightarrow> g
         | Some r \<Rightarrow>
             (let distanceToTarget = distanceTo (position self) (targetPosition g r)
              in if distanceToTarget \<le> attackRange self
                 then g\<lparr>units := (units g)[i := self\<lparr>velocity := \<lparr>vx = 0, vy = 0\<rparr>\<rparr>]\<rparr>
                 else
                   (let direction = multiply (directionTo (position self) (targetPosition g r))
                                      (speed self);
                        movement = multiply direction deltaTime;
                        pos = add (position self) movement;
                        fc = (if vy direction < 0 then - 1
                              else if vy direction > 0 then 1 else facing self);
                        pos' = \<lparr>vx = clamp (vx pos) (radius self) (canvasWidth g - radius self),
                                vy = clamp (vy pos) (radius self) (canvasHeight g - radius self)\<rparr>
                    in g\<lparr>units := (units g)[i := self\<lparr>velocity := direction, position := pos',
                                                     facing := fc\<rparr>]\<rparr>)))"

definition createProjectile :: "nat \<Rightarrow> target_ref \<Rightarrow> game_arg \<Rightarrow> Game \<Rightarrow> error + Game" where
  "createProjectile i tgt game g =
     (let self = units g ! i;
          projectile = \<lparr>p_position = position self, p_target = targetPosition g tgt,
                        p_speed = 200, p_damage = damage self, p_team = team self,
                        p_alive = True, p_type = utype self,
                        p_update = UnitProjectileUpdate\<rparr>
      in case game of
           Undefined \<Rightarrow> Inl TypeError
         | GameRef \<Rightarrow> Inr (g\<lparr>projectiles := projectiles g @ [projectile]\<rparr>))"

definition attack :: "nat \<Rightarrow> target_ref \<Rightarrow> game_arg \<Rightarrow> Game \<Rightarrow> error + Game" where
  "attack i tgt game g =
     (let self = units g ! i
      in if utype self = ''archer'' \<or> utype self = ''wizard''
         then createProjectile i tgt game g
         else Inr (target_takeDamage tgt (damage self) g))"

text \<open>\<open>now\<close> is the value that \<open>Date.now()\<close> returns.\<close>

definition attemptAttack :: "nat \<Rightarrow> int \<Rightarrow> Game \<Rightarrow> error + Game" where
  "attemptAttack i now g =
     (let self = units g ! i
      in case target self of
           None \<Rightarrow> Inr g
         | Some tgt \<Rightarrow>
             if \<not> targetAlive g tgt then Inr g
             else if now - lastAttack self < attackCooldown self then Inr g
             else if distanceTo (position self) (targetPosition g tgt) \<le> attackRange self
             then (case attack i tgt GameRef g of
                     Inl e \<Rightarrow> Inl e
                   | Inr g' \<Rightarrow>
                       Inr (g'\<lparr>units := (units g')[i := (units g' ! i)\<lparr>lastAttack := now\<rparr>]\<rparr>))
             else Inr g)"

definition unit_update :: "real \<Rightarrow> int \<Rightarrow> nat \<Rightarrow> Game \<Rightarrow> error + Game" where
  "unit_update deltaTime now i g =
     (if \<not> alive (units g ! i) then Inr g
      else case attemptAttack i now (move i deltaTime (findTarget i g)) of
             Inl e \<Rightarrow> Inl e
           | Inr g' \<Rightarrow>
               Inr (g'\<lparr>units := (units g')[i := (units g' ! i)
                          \<lparr>animationTime := animationTime (units g' ! i) + deltaTime\<rparr>]\<rparr>))"


subsection \<open>Tower behaviour\<close>

fun tw_scanUnits ::
  "Tower \<Rightarrow> Unit list \<Rightarrow> nat \<Rightarrow> nat option \<Rightarrow> real option \<Rightarrow> nat option \<times> real option" where
  "tw_scanUnits self [] k closestTarget closestDistance = (closestTarget, closestDistance)"
| "tw_scanUnits self (unit # rest) k closestTarget closestDistance =
     (if team unit \<noteq> tw_team self \<and> alive unit then
        (let distance = distanceTo (tw_position self) (position unit)
         in if distance \<le> tw_attackRange self \<and> lessThanClosest distance closestDistance
            then tw_scanUnits self rest (Suc k) (Some k) (Some distance)
            else tw_scanUnits self rest (Suc k) closestTarget closestDistance)
      else tw_scanUnits self rest (Suc k) closestTarget closestDistance)"

definition tw_findTarget :: "nat \<Rightarrow> Game \<Rightarrow> Game" where
  "tw_findTarget k g =
     (let self = towers g ! k;
          closestTarget = map_option UnitRef (fst (tw_scanUnits self (units g) 0 None None))
      in g\<lparr>towers := (towers g)[k := self\<lparr>tw_target := closestTarget\<rparr>]\<rparr>)"

definition tw_attack :: "nat \<Rightarrow> target_ref \<Rightarrow> Game \<Rightarrow> Game" where
  "tw_attack k tgt g =
     (let self = towers g ! k;
          projectile = \<lparr>p_position = tw_position self, p_target = targetPosition g tgt,
                        p_speed = 300, p_damage = tw_damage self, p_team = tw_team self,
                        p_alive = True, p_type = ''tower'',
                        p_update = TowerProjectileUpdate\<rparr>
      in g\<lparr>projectiles := projectiles g @ [projectile]\<rparr>)"

definition tw_attemptAttack :: "nat \<Rightarrow> int \<Rightarrow> Game \<Rightarrow> Game" where
  "tw_attemptAttack k now g =
     (let self = towers g ! k
      in case tw_target self of
           None \<Rightarrow> g
         | Some tgt \<Rightarrow>
             if \<not> targetAlive g tgt then g
             else if now - tw_lastAttack self < tw_attackCooldown self then g
             else if distanceTo (tw_position self) (targetPosition g tgt) \<le> tw_attackRange self
             then (let g' = tw_attack k tgt g
                   in g'\<lparr>towers := (towers g')[k := (towers g' ! k)\<lparr>tw_lastAttack := now\<rparr>]\<rparr>)
             else g)"

definition tw_update :: "int \<Rightarrow> nat \<Rightarrow> Game \<Rightarrow> Game" where
  "tw_update now k g =
     (if \<not> tw_alive (towers g ! k) then g
      else tw_attemptAttack k now (tw_findTarget k g))"


subsection \<open>The tick\<close>

definition updateElixir :: "real \<Rightarrow> Game \<Rightarrow> Game" where
  "updateElixir deltaTime g =
     (let g1 = g\<lparr>lastElixirRegen := lastElixirRegen g + deltaTime\<rparr>
      in if lastElixirRegen g1 \<ge> 1.0
         then g1\<lparr>playerElixir := min (playerElixir g1 + elixirRegenRate g1) (maxElixir g1),
                 lastElixirRegen := 0\<rparr>
         else g1)"

text \<open>
  \<open>forEach\<close> visits the positions that exist when it starts, in order; a callback that
  throws ends the iteration.
\<close>

fun forEachIndex :: "(nat \<Rightarrow> Game \<Rightarrow> error + Game) \<Rightarrow> nat list \<Rightarrow> Game \<Rightarrow> error + Game" where
  "forEachIndex f [] g = Inr g"
| "forEachIndex f (i # is) g =
     (case f i g of Inl e \<Rightarrow> Inl e | Inr g' \<Rightarrow> forEachIndex f is g')"

definition updateUnits :: "real \<Rightarrow> int \<Rightarrow> Game \<Rightarrow> error + Game" where
  "updateUnits deltaTime now g =
     forEachIndex (unit_update deltaTime now) [0 ..< length (units g)] g"

definition updateProjectiles :: "real \<Rightarrow> Game \<Rightarrow> Game" where
  "updateProjectiles deltaTime g =
     g\<lparr>projectiles := map (projectile_update deltaTime) (projectiles g)\<rparr>"

definition updateTowers :: "int \<Rightarrow> Game \<Rightarrow> Game" where
  "updateTowers now g = fold (tw_update now) [0 ..< length (towers g)] g"

text \<open>
  The body of the inner loop of the unit against unit pass, for the positions \<open>i\<close> and
  \<open>j\<close> of \<open>unit1\<close> and \<open>unit2\<close>. Both calls of \<open>attack\<close> leave the parameter \<open>game\<close> out.
\<close>

definition meleePair :: "nat \<Rightarrow> nat \<Rightarrow> Game \<Rightarrow> error + Game" where
  "meleePair i j g =
     (let unit1 = units g ! i; unit2 = units g ! j
      in if \<not> alive unit2 \<or> team unit1 = team unit2 then Inr g
         else
           (let distance = distanceTo (position unit1) (position unit2)
            in case (if distance < attackRange unit1
                     then attack i (UnitRef j) Undefined g else Inr g) of
                 Inl e \<Rightarrow> Inl e
               | Inr g1 \<Rightarrow>
                   if distance < attackRange (units g1 ! j)
                   then attack j (UnitRef i) Undefined g1 else Inr g1))"

lemma target_takeDamage_length:
  "length (units (target_takeDamage r a g)) = length (units g)"
  by (simp add: target_takeDamage_def split: target_ref.splits)

lemma attack_Undefined_length:
  "attack i tgt Undefined g = Inr g' \<Longrightarrow> length (units g') = length (units g)"
  by (auto simp add: attack_def createProjectile_def Let_def target_takeDamage_length
      split: if_splits)

lemma meleePair_length:
  assumes "meleePair i j g = Inr g'"
  shows "length (units g') = length (units g)"
proof (cases "\<not> alive (units g ! j) \<or> team (units g ! i) = team (units g ! j)")
  case True
  then show ?thesis using assms by (simp add: meleePair_def Let_def)
next
  case False
  let ?d = "distanceTo (position (units g ! i)) (position (units g ! j))"
  obtain g1 where g1: "(if ?d < attackRange (units g ! i)
                     then attack i (UnitRef j) Undefined g else Inr g) = Inr g1"
    and g2: "(if ?d < attackRange (units g1 ! j)
                   then attack j (UnitRef i) Undefined g1 else Inr g1) = Inr g'"
    using assms False by (simp add: meleePair_def Let_def split: sum.splits)
  have l1: "length (units g1) = length (units g)"
    using g1 attack_Undefined_length by (cases "?d < attackRange (units g ! i)") auto
  have l2: "length (units g') = length (units g1)"
    using g2 attack_Undefined_length by (cases "?d < attackRange (units g1 ! j)") auto
  show ?thesis using l1 l2 by simp
qed

function meleeInner :: "nat \<Rightarrow> nat \<Rightarrow> Game \<Rightarrow> error + Game" where
  "meleeInner i j g =
     (if j < length (units g)
      then (case meleePair i j g of Inl e \<Rightarrow> Inl e | Inr g' \<Rightarrow> meleeInner i (j + 1) g')
      else Inr g)"
  by pat_completeness auto
termination
proof (relation "measure (\<lambda>(i, j, g). length (units g) - j)")
  show "wf (measure (\<lambda>(i, j, g). length (units g) - j))" by simp
next
  fix i j :: nat and g x2 :: Game
  assume a: "j < length (units g)" and b: "meleePair i j g = Inr x2"
  have "length (units x2) = length (units g)" using meleePair_length [OF b] .
  then show "((i, j + 1, x2), i, j, g) \<in> measure (\<lambda>(i, j, g). length (units g) - j)"
    using a by simp
qed

declare meleeInner.simps [simp del]

lemma meleeInner_length:
  "meleeInner i j g = Inr g' \<Longrightarrow> length (units g') = length (units g)"
proof (induction i j g rule: meleeInner.induct)
  case (1 i j g)
  show ?case
  proof (cases "j < length (units g)")
    case True
    have "(case meleePair i j g of Inl e \<Rightarrow> Inl e | Inr g1 \<Rightarrow> meleeInner i (j + 1) g1) = Inr g'"
      using "1.prems" True meleeInner.simps [of i j g] by simp
    then obtain g1 where g1: "meleePair i j g = Inr g1" and r: "meleeInner i (j + 1) g1 = Inr g'"
      by (cases "meleePair i j g") auto
    have "length (units g') = length (units g1)" using "1.IH" [OF True g1 r] .
    then show ?thesis using meleePair_length [OF g1] by simp
  next
    case False
    then show ?thesis using "1.prems" meleeInner.simps [of i j g] by simp
  qed
qed

function meleeOuter :: "nat \<Rightarrow> Game \<Rightarrow> error + Game" where
  "meleeOuter i g =
     (if i < length (units g)
      then (if \<not> alive (units g ! i) then meleeOuter (i + 1) g
            else (case meleeInner i (i + 1) g of
                    Inl e \<Rightarrow> Inl e
                  | Inr g' \<Rightarrow> meleeOuter (i + 1) g'))
      else Inr g)"
  by pat_completeness auto
termination
proof (relation "measure (\<lambda>(i, g). length (units g) - i)")
  show "wf (measure (\<lambda>(i, g). length (units g) - i))" by simp
next
  fix i :: nat and g :: Game
  assume "i < length (units g)"
  then show "((i + 1, g), i, g) \<in> measure (\<lambda>(i, g). length (units g) - i)" by simp
next
  fix i :: nat and g x2 :: Game
  assume a: "i < length (units g)" and b: "meleeInner i (i + 1) g = Inr x2"
  have "length (units x2) = length (units g)" using meleeInner_length [OF b] .
  then show "((i + 1, x2), i, g) \<in> measure (\<lambda>(i, g). length (units g) - i)"
    using a by simp
qed

declare meleeOuter.simps [simp del]

text \<open>The projectile against unit pass: the inner \<open>forEach\<close> for one projectile.\<close>

fun hitUnits :: "Projectile \<Rightarrow> Unit list \<Rightarrow> Projectile \<times> Unit list" where
  "hitUnits projectile [] = (projectile, [])"
| "hitUnits projectile (unit # rest) =
     (if team unit \<noteq> p_team projectile \<and> alive unit
         \<and> distanceTo (p_position projectile) (position unit) < radius unit
      then (let (projectile', rest') = hitUnits (projectile\<lparr>p_alive := False\<rparr>) rest
            in (projectile', takeDamage unit (p_damage projectile) # rest'))
      else (let (projectile', rest') = hitUnits projectile rest
            in (projectile', unit # rest')))"

fun hitProjectiles :: "Projectile list \<Rightarrow> Unit list \<Rightarrow> Projectile list \<times> Unit list" where
  "hitProjectiles [] us = ([], us)"
| "hitProjectiles (projectile # rest) us =
     (let (projectile', us') = hitUnits projectile us;
          (rest', us'') = hitProjectiles rest us'
      in (projectile' # rest', us''))"

definition projectileCollisions :: "Game \<Rightarrow> Game" where
  "projectileCollisions g =
     (let (ps, us) = hitProjectiles (projectiles g) (units g)
      in g\<lparr>units := us, projectiles := ps\<rparr>)"

definition checkCollisions :: "Game \<Rightarrow> error + Game" where
  "checkCollisions g =
     (case meleeOuter 0 g of Inl e \<Rightarrow> Inl e | Inr g' \<Rightarrow> Inr (projectileCollisions g'))"

definition cleanupEntities :: "Game \<Rightarrow> Game" where
  "cleanupEntities g =
     g\<lparr>units := filter alive (units g), projectiles := filter p_alive (projectiles g)\<rparr>"

definition endGame :: "Game \<Rightarrow> Game" where
  "endGame g = g\<lparr>running := False\<rparr>"

definition checkWinConditions :: "Game \<Rightarrow> error + Game" where
  "checkWinConditions g =
     (case (findIndex (\<lambda>t. tw_team t = Player) (towers g) 0,
            findIndex (\<lambda>t. tw_team t = Enemy) (towers g) 0) of
        (None, _) \<Rightarrow> Inl TypeError
      | (Some p, enemyTower) \<Rightarrow>
          if \<not> tw_alive (towers g ! p) then Inr (endGame g)
          else (case enemyTower of
                  None \<Rightarrow> Inl TypeError
                | Some e \<Rightarrow> if \<not> tw_alive (towers g ! e) then Inr (endGame g) else Inr g))"

text \<open>
  One tick. The clock is read once for the whole tick: every \<open>Date.now()\<close> of the tick
  returns \<open>now\<close>.
\<close>

definition update :: "real \<Rightarrow> int \<Rightarrow> Game \<Rightarrow> error + Game" where
  "update deltaTime now g =
     (case updateUnits deltaTime now (updateElixir deltaTime g) of
        Inl e \<Rightarrow> Inl e
      | Inr g1 \<Rightarrow>
          (case checkCollisions (updateTowers now (updateProjectiles deltaTime g1)) of
             Inl e \<Rightarrow> Inl e
           | Inr g2 \<Rightarrow> checkWinConditions (cleanupEntities g2)))"


subsection \<open>Cards and placement\<close>

definition selectCard :: "string \<Rightarrow> Game \<Rightarrow> Game" where
  "selectCard cardType g = g\<lparr>selectedCard := Some cardType, draggingCard := True\<rparr>"

definition cancelCardPlacement :: "Game \<Rightarrow> Game" where
  "cancelCardPlacement g = g\<lparr>selectedCard := None, draggingCard := False\<rparr>"

definition spawnUnit :: "string \<Rightarrow> Vector2D \<Rightarrow> team \<Rightarrow> Game \<Rightarrow> Game" where
  "spawnUnit ty pos tm g = g\<lparr>units := units g @ [newUnit pos ty tm]\<rparr>"

text \<open>
  The data of a card. For an inherited name the lookup returns the inherited member,
  which has none of the fields of an entry: its \<open>cost\<close> reads as \<open>undefined\<close>. The
  result is \<open>None\<close> then.
\<close>

record UnitData =
  ud_cost :: real
  ud_health :: real
  ud_damage :: real
  ud_speed :: real
  ud_range :: real

definition getUnitData :: "string \<Rightarrow> UnitData option" where
  "getUnitData ty =
     (let knight = \<lparr>ud_cost = 3, ud_health = 1200, ud_damage = 150, ud_speed = 30, ud_range = 40\<rparr>;
          archer = \<lparr>ud_cost = 3, ud_health = 400, ud_damage = 100, ud_speed = 40, ud_range = 100\<rparr>;
          giant = \<lparr>ud_cost = 5, ud_health = 3000, ud_damage = 200, ud_speed = 20, ud_range = 50\<rparr>;
          wizard = \<lparr>ud_cost = 5, ud_health = 600, ud_damage = 250, ud_speed = 35, ud_range = 120\<rparr>
      in if ty = ''knight'' then Some knight
         else if ty = ''archer'' then Some archer
         else if ty = ''giant'' then Some giant
         else if ty = ''wizard'' then Some wizard
         else if ty \<in> set inheritedKeys then None
         else Some knight)"

text \<open>
  \<open>selectedCard\<close> is \<open>null\<close> or a string; the empty string is as falsy as \<open>null\<close>.
  The comparison of the resource with a cost that is \<open>undefined\<close> is false.
\<close>

definition truthy :: "string option \<Rightarrow> bool" where
  "truthy c = (case c of None \<Rightarrow> False | Some s \<Rightarrow> s \<noteq> [])"

definition tryPlaceUnit :: "Game \<Rightarrow> Game" where
  "tryPlaceUnit g =
     (if \<not> truthy (selectedCard g) \<or> \<not> pointInRect (mousePos g) (playerZone g)
      then cancelCardPlacement g
      else
        (let unitData = getUnitData (the (selectedCard g));
             g1 = (case unitData of
                     None \<Rightarrow> g
                   | Some d \<Rightarrow>
                       if playerElixir g \<ge> ud_cost d
                       then (let g' = spawnUnit (the (selectedCard g)) (mousePos g) Player g
                             in g'\<lparr>playerElixir := playerElixir g' - ud_cost d\<rparr>)
                       else g)
         in cancelCardPlacement g1))"

definition handleMouseMove :: "Vector2D \<Rightarrow> Game \<Rightarrow> Game" where
  "handleMouseMove point g = g\<lparr>mousePos := point\<rparr>"

definition handleMouseUp :: "Vector2D \<Rightarrow> Game \<Rightarrow> Game" where
  "handleMouseUp point g =
     (let g1 = g\<lparr>mousePos := point, isMouseDown := False\<rparr>
      in if truthy (selectedCard g1) \<and> draggingCard g1 then tryPlaceUnit g1 else g1)"

definition handleTouchEnd :: "Game \<Rightarrow> Game" where
  "handleTouchEnd g =
     (let g1 = g\<lparr>isMouseDown := False\<rparr>
      in if truthy (selectedCard g1) \<and> draggingCard g1 then tryPlaceUnit g1 else g1)"

text \<open>
  \<open>Math.random()\<close> returns a number \<open>r\<close> with \<open>0 \<le> r < 1\<close>. \<open>Utils.random\<close> and
  \<open>Utils.randomInt\<close> take the number that they draw as their first parameter, and
  \<open>enemyAI\<close> the three numbers that it draws.
\<close>

definition random_num :: "real \<Rightarrow> real \<Rightarrow> real \<Rightarrow> real" where
  "random_num r lo hi = r * (hi - lo) + lo"

definition randomInt :: "real \<Rightarrow> int \<Rightarrow> int \<Rightarrow> int" where
  "randomInt r lo hi = \<lfloor>r * real_of_int (hi - lo + 1)\<rfloor> + lo"

definition enemyAI :: "real \<Rightarrow> real \<Rightarrow> real \<Rightarrow> Game \<Rightarrow> Game" where
  "enemyAI r1 r2 r3 g =
     (let unitTypes = [''knight'', ''archer'', ''giant'', ''wizard''];
          randomType = unitTypes ! nat (randomInt r1 0 (int (length unitTypes) - 1));
          spawnX = random_num r2 100 (canvasWidth g - 100);
          spawnY = random_num r3 50 (rheight (enemyZone g) - 50)
      in spawnUnit randomType \<lparr>vx = spawnX, vy = spawnY\<rparr> Enemy g)"

text \<open>
  \<open>gameLoop\<close> runs one tick when the game is running; \<open>deltaTime\<close> is the time since the
  previous frame, in seconds. \<open>start\<close> sets \<open>running\<close> and calls \<open>gameLoop\<close> at once. The
  timer that \<open>startEnemyAI\<close> installs calls \<open>enemyAI\<close> only while the game is running.
\<close>

definition gameLoop :: "real \<Rightarrow> int \<Rightarrow> Game \<Rightarrow> error + Game" where
  "gameLoop deltaTime now g = (if \<not> running g then Inr g else update deltaTime now g)"

definition start :: "real \<Rightarrow> int \<Rightarrow> Game \<Rightarrow> error + Game" where
  "start deltaTime now g = gameLoop deltaTime now (g\<lparr>running := True\<rparr>)"

definition stop :: "Game \<Rightarrow> Game" where
  "stop g = g\<lparr>running := False\<rparr>"

definition enemyAITimer :: "real \<Rightarrow> real \<Rightarrow> real \<Rightarrow> Game \<Rightarrow> Game" where
  "enemyAITimer r1 r2 r3 g = (if running g then enemyAI r1 r2 r3 g else g)"

text \<open>
  What can happen to a game: its start and its stop, a frame of the loop, the selection
  of a card, the pointer events of the canvas, and the timer of the opponent with the
  three numbers that it draws. An exception ends the run. A timer event whose numbers
  are not of the interval from 0 to 1, 1 excluded, does not occur; it is no step.
\<close>

definition unitInterval :: "real \<Rightarrow> bool" where
  "unitInterval r \<longleftrightarrow> 0 \<le> r \<and> r < 1"

datatype event =
    Start real int
  | Stop
  | Tick real int
  | SelectCard string
  | MouseMove Vector2D
  | MouseUp Vector2D
  | TouchEnd
  | EnemyAI real real real

fun step :: "event \<Rightarrow> Game \<Rightarrow> error + Game" where
  "step (Start deltaTime now) g = start deltaTime now g"
| "step Stop g = Inr (stop g)"
| "step (Tick deltaTime now) g = gameLoop deltaTime now g"
| "step (SelectCard cardType) g = Inr (selectCard cardType g)"
| "step (MouseMove point) g = Inr (handleMouseMove point g)"
| "step (MouseUp point) g = Inr (handleMouseUp point g)"
| "step TouchEnd g = Inr (handleTouchEnd g)"
| "step (EnemyAI r1 r2 r3) g =
     (if unitInterval r1 \<and> unitInterval r2 \<and> unitInterval r3
      then Inr (enemyAITimer r1 r2 r3 g) else Inr g)"

fun run :: "event list \<Rightarrow> Game \<Rightarrow> error + Game" where
  "run [] g = Inr g"
| "run (e # es) g = (case step e g of Inl err \<Rightarrow> Inl err | Inr g' \<Rightarrow> run es g')"


subsection \<open>Auxiliary definitions\<close>

text \<open>The part of the state that holds the resource.\<close>

definition elixirState :: "Game \<Rightarrow> real \<times> real \<times> real \<times> real" where
  "elixirState g = (playerElixir g, maxElixir g, elixirRegenRate g, lastElixirRegen g)"

text \<open>The invariant of the resource.\<close>

definition elixirInv :: "Game \<Rightarrow> bool" where
  "elixirInv g \<longleftrightarrow> elixirRegenRate g = 1 \<and> maxElixir g = 10
                 \<and> 0 \<le> playerElixir g \<and> playerElixir g \<le> maxElixir g"

text \<open>
  The part of the state that the constructor fixes for the whole game: the two zones and
  the size of the canvas.
\<close>

definition zoneState :: "Game \<Rightarrow> Rect \<times> Rect \<times> real \<times> real" where
  "zoneState g = (playerZone g, enemyZone g, canvasWidth g, canvasHeight g)"

text \<open>
  A running game as the constructor builds it on an 800 by 600 canvas in a container 800
  wide, with the pointer in the player's zone.
\<close>

definition exGame :: Game where
  "exGame = (newGame 800 600 800)\<lparr>running := True, mousePos := \<lparr>vx = 400, vy = 450\<rparr>\<rparr>"

text \<open>
  A game with a player's knight that targets an enemy knight 30 away, and whose enemy
  tower targets the player's knight 100 away.
\<close>

definition exBattle :: Game where
  "exBattle = exGame
     \<lparr>units := [(newUnit \<lparr>vx = 400, vy = 150\<rparr> ''knight'' Player)\<lparr>target := Some (UnitRef 1)\<rparr>,
                newUnit \<lparr>vx = 400, vy = 120\<rparr> ''knight'' Enemy],
      towers := [newTower \<lparr>vx = 400, vy = 450\<rparr> Player,
                 (newTower \<lparr>vx = 400, vy = 50\<rparr> Enemy)\<lparr>tw_target := Some (UnitRef 0)\<rparr>]\<rparr>"

text \<open>The conditions under which \<open>attemptAttack\<close> makes the attack on \<open>tgt\<close>.\<close>

definition fires :: "nat \<Rightarrow> int \<Rightarrow> Game \<Rightarrow> target_ref \<Rightarrow> bool" where
  "fires i now g tgt \<longleftrightarrow>
     target (units g ! i) = Some tgt \<and> targetAlive g tgt
     \<and> \<not> now - lastAttack (units g ! i) < attackCooldown (units g ! i)
     \<and> distanceTo (position (units g ! i)) (targetPosition g tgt) \<le> attackRange (units g ! i)"

definition tw_fires :: "nat \<Rightarrow> int \<Rightarrow> Game \<Rightarrow> target_ref \<Rightarrow> bool" where
  "tw_fires k now g tgt \<longleftrightarrow>
     tw_target (towers g ! k) = Some tgt \<and> targetAlive g tgt
     \<and> \<not> now - tw_lastAttack (towers g ! k) < tw_attackCooldown (towers g ! k)
     \<and> distanceTo (tw_position (towers g ! k)) (targetPosition g tgt)
          \<le> tw_attackRange (towers g ! k)"

text \<open>
  A game whose only unit is a player's archer that targets the enemy tower, 100 away.
\<close>

definition exSiege :: Game where
  "exSiege = exGame
     \<lparr>units := [(newUnit \<lparr>vx = 400, vy = 150\<rparr> ''archer'' Player)\<lparr>target := Some (TowerRef 1)\<rparr>],
      towers := [newTower \<lparr>vx = 400, vy = 450\<rparr> Player, newTower \<lparr>vx = 400, vy = 50\<rparr> Enemy]\<rparr>"

text \<open>The test that the projectile pass makes for a projectile and a unit.\<close>

definition hits :: "Projectile \<Rightarrow> Unit \<Rightarrow> bool" where
  "hits projectile unit \<longleftrightarrow>
     team unit \<noteq> p_team projectile \<and> alive unit
     \<and> distanceTo (p_position projectile) (position unit) < radius unit"

text \<open>
  A game with one player's projectile of damage 100 and two enemy knights, at distances
  0 and 5 from it.
\<close>

definition exVolley :: Game where
  "exVolley = exGame
     \<lparr>units := [newUnit \<lparr>vx = 100, vy = 100\<rparr> ''knight'' Enemy,
                newUnit \<lparr>vx = 105, vy = 100\<rparr> ''knight'' Enemy],
      projectiles := [\<lparr>p_position = \<lparr>vx = 100, vy = 100\<rparr>, p_target = \<lparr>vx = 100, vy = 50\<rparr>,
                       p_speed = 200, p_damage = 100, p_team = Player, p_alive = True,
                       p_type = ''archer'', p_update = UnitProjectileUpdate\<rparr>]\<rparr>"

text \<open>The test by which \<open>Unit.attack\<close> takes the projectile branch.\<close>

definition ranged :: "Unit \<Rightarrow> bool" where
  "ranged u \<longleftrightarrow> utype u = ''archer'' \<or> utype u = ''wizard''"






text \<open>The value that \<open>Unit.findTarget\<close> and \<open>Tower.findTarget\<close> store in \<open>target\<close>.\<close>

definition newTarget :: "nat \<Rightarrow> Game \<Rightarrow> target_ref option" where
  "newTarget i g = target (units (findTarget i g) ! i)"






text \<open>
  \<open>strikes a b\<close>: the units are of opposing teams and their separation is strictly less
  than the attack range of \<open>a\<close>. \<open>incoming g k\<close> is the sum of the damage of the units of
  \<open>g\<close> that strike the unit at position \<open>k\<close>.
\<close>

definition strikes :: "Unit \<Rightarrow> Unit \<Rightarrow> bool" where
  "strikes a b \<longleftrightarrow>
     team a \<noteq> team b \<and> distanceTo (position a) (position b) < attackRange a"


text \<open>
  The state of the loops of the melee pass: \<open>visited i j m k\<close> holds when the pair of the
  positions \<open>m\<close> and \<open>k\<close> comes before the pair \<open>(i, j)\<close>; \<open>dealt us i j k\<close> is the damage
  that the unit at \<open>k\<close> has taken at that moment, and \<open>ledger us i j\<close> the unit list.
\<close>

definition visited :: "nat \<Rightarrow> nat \<Rightarrow> nat \<Rightarrow> nat \<Rightarrow> bool" where
  "visited i j m k \<longleftrightarrow> min m k < i \<or> (min m k = i \<and> max m k < j)"

definition dealt :: "Unit list \<Rightarrow> nat \<Rightarrow> nat \<Rightarrow> nat \<Rightarrow> real" where
  "dealt us i j k =
     (\<Sum>m < length us.
        if m \<noteq> k \<and> strikes (us ! m) (us ! k) \<and> visited i j m k then damage (us ! m) else 0)"

definition ledger :: "Unit list \<Rightarrow> nat \<Rightarrow> nat \<Rightarrow> Unit list" where
  "ledger us i j =
     map (\<lambda>k. (us ! k)\<lparr>health := health (us ! k) - dealt us i j k\<rparr>) [0 ..< length us]"











text \<open>
  The units of a game have type names that are not inherited from \<open>Object.prototype\<close>.
\<close>

definition ownTypes :: "Game \<Rightarrow> bool" where
  "ownTypes g \<longleftrightarrow> (\<forall>u \<in> set (units g). utype u \<notin> set inheritedKeys)"


section \<open>Damage application\<close>

lemma takeDamage_health:
  "health (takeDamage u a) = (if health u - a \<le> 0 then 0 else health u - a)"
  by (simp add: takeDamage_def Let_def)

lemma takeDamage_alive:
  "alive (takeDamage u a) = (if health u - a \<le> 0 then False else alive u)"
  by (simp add: takeDamage_def Let_def)

lemma tw_takeDamage_health:
  "tw_health (tw_takeDamage t a) = (if tw_health t - a \<le> 0 then 0 else tw_health t - a)"
  by (simp add: tw_takeDamage_def Let_def)

lemma tw_takeDamage_alive:
  "tw_alive (tw_takeDamage t a) = (if tw_health t - a \<le> 0 then False else tw_alive t)"
  by (simp add: tw_takeDamage_def Let_def)

lemma foldl_takeDamage:
  "\<forall>a \<in> set amounts. 0 \<le> a \<Longrightarrow> 0 \<le> health u \<Longrightarrow> (alive u \<longrightarrow> 0 < health u) \<Longrightarrow>
     health (foldl takeDamage u amounts) \<le> health u
     \<and> 0 \<le> health (foldl takeDamage u amounts)
     \<and> (alive (foldl takeDamage u amounts) \<longleftrightarrow> alive u \<and> 0 < health (foldl takeDamage u amounts))"
proof (induction amounts arbitrary: u)
  case Nil
  then show ?case by auto
next
  case (Cons a as)
  let ?v = "takeDamage u a"
  have a: "0 \<le> a" using Cons.prems by simp
  have v1: "health ?v \<le> health u" using a Cons.prems(2) by (simp add: takeDamage_health)
  have v2: "0 \<le> health ?v" by (simp add: takeDamage_health)
  have v3: "alive ?v \<longrightarrow> 0 < health ?v" by (simp add: takeDamage_health takeDamage_alive)
  have v4: "alive ?v \<longleftrightarrow> alive u \<and> 0 < health ?v"
    by (auto simp add: takeDamage_health takeDamage_alive)
  have ih: "health (foldl takeDamage ?v as) \<le> health ?v
     \<and> 0 \<le> health (foldl takeDamage ?v as)
     \<and> (alive (foldl takeDamage ?v as) \<longleftrightarrow> alive ?v \<and> 0 < health (foldl takeDamage ?v as))"
    using Cons.IH[of ?v] Cons.prems(1) v2 v3 by simp
  have le: "health (foldl takeDamage ?v as) \<le> health u" using ih v1 by linarith
  have "alive (foldl takeDamage ?v as) \<longleftrightarrow> alive u \<and> 0 < health (foldl takeDamage ?v as)"
    using ih v4 by (metis less_le_trans)
  then show ?case using ih le by simp
qed

lemma foldl_tw_takeDamage:
  "\<forall>a \<in> set amounts. 0 \<le> a \<Longrightarrow> 0 \<le> tw_health t \<Longrightarrow> (tw_alive t \<longrightarrow> 0 < tw_health t) \<Longrightarrow>
     tw_health (foldl tw_takeDamage t amounts) \<le> tw_health t
     \<and> 0 \<le> tw_health (foldl tw_takeDamage t amounts)
     \<and> (tw_alive (foldl tw_takeDamage t amounts) \<longleftrightarrow>
          tw_alive t \<and> 0 < tw_health (foldl tw_takeDamage t amounts))"
proof (induction amounts arbitrary: t)
  case Nil
  then show ?case by auto
next
  case (Cons a as)
  let ?v = "tw_takeDamage t a"
  have a: "0 \<le> a" using Cons.prems by simp
  have v1: "tw_health ?v \<le> tw_health t"
    using a Cons.prems(2) by (simp add: tw_takeDamage_health)
  have v2: "0 \<le> tw_health ?v" by (simp add: tw_takeDamage_health)
  have v3: "tw_alive ?v \<longrightarrow> 0 < tw_health ?v"
    by (simp add: tw_takeDamage_health tw_takeDamage_alive)
  have v4: "tw_alive ?v \<longleftrightarrow> tw_alive t \<and> 0 < tw_health ?v"
    by (auto simp add: tw_takeDamage_health tw_takeDamage_alive)
  have ih: "tw_health (foldl tw_takeDamage ?v as) \<le> tw_health ?v
     \<and> 0 \<le> tw_health (foldl tw_takeDamage ?v as)
     \<and> (tw_alive (foldl tw_takeDamage ?v as) \<longleftrightarrow>
          tw_alive ?v \<and> 0 < tw_health (foldl tw_takeDamage ?v as))"
    using Cons.IH[of ?v] Cons.prems(1) v2 v3 by simp
  have le: "tw_health (foldl tw_takeDamage ?v as) \<le> tw_health t" using ih v1 by linarith
  have "tw_alive (foldl tw_takeDamage ?v as) \<longleftrightarrow>
          tw_alive t \<and> 0 < tw_health (foldl tw_takeDamage ?v as)"
    using ih v4 by (metis less_le_trans)
  then show ?case using ih le by simp
qed

text \<open>
  C5. Let a unit \<open>u\<close> and a tower \<open>t\<close> be in a state the program produces (health positive
  while alive, 0 once dead), and let \<open>takeDamage\<close> be called any number of times with
  non-negative amounts. Then the health has not increased and is not negative, a
  combatant that was alive is dead afterwards exactly when its health has reached 0, a
  dead combatant is still dead, and its health is still 0. The constructors produce such
  a state, and the calls preserve it.
\<close>

theorem takeDamage_health_alive:
  assumes "\<forall>a \<in> set amounts. 0 \<le> a"
    and "if alive u then 0 < health u else health u = 0"
    and "if tw_alive t then 0 < tw_health t else tw_health t = 0"
  shows "health (foldl takeDamage u amounts) \<le> health u
       \<and> 0 \<le> health (foldl takeDamage u amounts)
       \<and> (alive u \<longrightarrow>
            (\<not> alive (foldl takeDamage u amounts) \<longleftrightarrow> health (foldl takeDamage u amounts) = 0))
       \<and> (\<not> alive u \<longrightarrow>
            \<not> alive (foldl takeDamage u amounts) \<and> health (foldl takeDamage u amounts) = 0)
       \<and> tw_health (foldl tw_takeDamage t amounts) \<le> tw_health t
       \<and> 0 \<le> tw_health (foldl tw_takeDamage t amounts)
       \<and> (tw_alive t \<longrightarrow>
            (\<not> tw_alive (foldl tw_takeDamage t amounts) \<longleftrightarrow>
               tw_health (foldl tw_takeDamage t amounts) = 0))
       \<and> (\<not> tw_alive t \<longrightarrow>
            \<not> tw_alive (foldl tw_takeDamage t amounts)
            \<and> tw_health (foldl tw_takeDamage t amounts) = 0)
       \<and> (if alive (foldl takeDamage u amounts) then 0 < health (foldl takeDamage u amounts)
           else health (foldl takeDamage u amounts) = 0)
       \<and> (if tw_alive (foldl tw_takeDamage t amounts)
           then 0 < tw_health (foldl tw_takeDamage t amounts)
           else tw_health (foldl tw_takeDamage t amounts) = 0)
       \<and> alive (newUnit pos ty tm) \<and> 0 < health (newUnit pos ty tm)
       \<and> tw_alive (newTower pos tm) \<and> 0 < tw_health (newTower pos tm)"
proof -
  have u0: "0 \<le> health u" and u1: "alive u \<longrightarrow> 0 < health u"
    using assms(2) by (auto split: if_splits)
  have t0: "0 \<le> tw_health t" and t1: "tw_alive t \<longrightarrow> 0 < tw_health t"
    using assms(3) by (auto split: if_splits)
  note U = foldl_takeDamage [OF assms(1) u0 u1]
  note T = foldl_tw_takeDamage [OF assms(1) t0 t1]
  have U4: "\<not> alive u \<longrightarrow> health (foldl takeDamage u amounts) = 0"
    using U assms(2) by (auto split: if_splits)
  have T4: "\<not> tw_alive t \<longrightarrow> tw_health (foldl tw_takeDamage t amounts) = 0"
    using T assms(3) by (auto split: if_splits)
  have U3: "alive u \<longrightarrow>
      (\<not> alive (foldl takeDamage u amounts) \<longleftrightarrow> health (foldl takeDamage u amounts) = 0)"
    using U by auto
  have T3: "tw_alive t \<longrightarrow>
      (\<not> tw_alive (foldl tw_takeDamage t amounts) \<longleftrightarrow>
         tw_health (foldl tw_takeDamage t amounts) = 0)"
    using T by auto
  have U5: "if alive (foldl takeDamage u amounts) then 0 < health (foldl takeDamage u amounts)
           else health (foldl takeDamage u amounts) = 0"
    using U U3 U4 by (cases "alive u") auto
  have T5: "if tw_alive (foldl tw_takeDamage t amounts)
           then 0 < tw_health (foldl tw_takeDamage t amounts)
           else tw_health (foldl tw_takeDamage t amounts) = 0"
    using T T3 T4 by (cases "tw_alive t") auto
  have N: "alive (newUnit pos ty tm) \<and> 0 < health (newUnit pos ty tm)
       \<and> tw_alive (newTower pos tm) \<and> 0 < tw_health (newTower pos tm)"
    by (simp add: newUnit_def newTower_def getUnitStats_def knightStats_def Let_def)
  show ?thesis using U T U3 T3 U4 T4 U5 T5 N by blast
qed

theorem takeDamage_health_alive_witness:
  "health (foldl takeDamage (newUnit \<lparr>vx = 0, vy = 0\<rparr> ''knight'' Player) [150, 1100, 30]) = 0
   \<and> \<not> alive (foldl takeDamage (newUnit \<lparr>vx = 0, vy = 0\<rparr> ''knight'' Player) [150, 1100, 30])
   \<and> tw_health (foldl tw_takeDamage (newTower \<lparr>vx = 0, vy = 0\<rparr> Enemy) [150, 1100, 30]) = 1220
   \<and> tw_alive (foldl tw_takeDamage (newTower \<lparr>vx = 0, vy = 0\<rparr> Enemy) [150, 1100, 30])"
proof -
  have a: "\<forall>a \<in> set [150, 1100, 30 :: real]. 0 \<le> a" by simp
  have u: "if alive (newUnit \<lparr>vx = 0, vy = 0\<rparr> ''knight'' Player)
           then 0 < health (newUnit \<lparr>vx = 0, vy = 0\<rparr> ''knight'' Player)
           else health (newUnit \<lparr>vx = 0, vy = 0\<rparr> ''knight'' Player) = 0"
    by (simp add: newUnit_def getUnitStats_def knightStats_def)
  have t: "if tw_alive (newTower \<lparr>vx = 0, vy = 0\<rparr> Enemy)
           then 0 < tw_health (newTower \<lparr>vx = 0, vy = 0\<rparr> Enemy)
           else tw_health (newTower \<lparr>vx = 0, vy = 0\<rparr> Enemy) = 0"
    by (simp add: newTower_def)
  have h: "health (foldl takeDamage (newUnit \<lparr>vx = 0, vy = 0\<rparr> ''knight'' Player) [150, 1100, 30]) = 0"
    by (simp add: takeDamage_def newUnit_def getUnitStats_def knightStats_def)
  have th: "tw_health (foldl tw_takeDamage (newTower \<lparr>vx = 0, vy = 0\<rparr> Enemy) [150, 1100, 30]) = 1220"
    by (simp add: tw_takeDamage_def newTower_def)
  have ua: "alive (newUnit \<lparr>vx = 0, vy = 0\<rparr> ''knight'' Player)"
    by (simp add: newUnit_def Let_def)
  have ta: "tw_alive (newTower \<lparr>vx = 0, vy = 0\<rparr> Enemy)"
    by (simp add: newTower_def)
  show ?thesis
    using takeDamage_health_alive [OF a u t] h th ua ta by simp
qed


section \<open>What each phase leaves unchanged: the resource\<close>

lemma elixirState_units_update [simp]: "elixirState (g\<lparr>units := us\<rparr>) = elixirState g"
  and elixirState_towers_update [simp]: "elixirState (g\<lparr>towers := ts\<rparr>) = elixirState g"
  and elixirState_projectiles_update [simp]: "elixirState (g\<lparr>projectiles := ps\<rparr>) = elixirState g"
  and elixirState_running_update [simp]: "elixirState (g\<lparr>running := b\<rparr>) = elixirState g"
  by (simp_all add: elixirState_def)

lemma target_takeDamage_elixir [simp]: "elixirState (target_takeDamage r a g) = elixirState g"
  by (simp add: target_takeDamage_def split: target_ref.splits)

lemma attack_elixir: "attack i tgt game g = Inr g' \<Longrightarrow> elixirState g' = elixirState g"
  by (auto simp add: attack_def createProjectile_def Let_def split: if_splits game_arg.splits)

lemma findTarget_elixir [simp]: "elixirState (findTarget i g) = elixirState g"
  by (simp add: findTarget_def Let_def)

lemma move_elixir [simp]: "elixirState (move i dt g) = elixirState g"
  by (simp add: move_def Let_def split: option.splits)

lemma attemptAttack_elixir: "attemptAttack i now g = Inr g' \<Longrightarrow> elixirState g' = elixirState g"
  by (auto simp add: attemptAttack_def Let_def split: option.splits if_splits sum.splits
      dest: attack_elixir)

lemma unit_update_elixir: "unit_update dt now i g = Inr g' \<Longrightarrow> elixirState g' = elixirState g"
  by (auto simp add: unit_update_def split: if_splits sum.splits dest!: attemptAttack_elixir)

lemma forEachIndex_elixir:
  assumes "\<And>i g g'. f i g = Inr g' \<Longrightarrow> elixirState g' = elixirState g"
  shows "forEachIndex f is g = Inr g' \<Longrightarrow> elixirState g' = elixirState g"
proof (induction "is" arbitrary: g)
  case Nil
  then show ?case by simp
next
  case (Cons i "is")
  then obtain g1 where a: "f i g = Inr g1" and b: "forEachIndex f is g1 = Inr g'"
    by (auto split: sum.splits)
  show ?case using assms [OF a] Cons.IH [OF b] by simp
qed

lemma updateUnits_elixir: "updateUnits dt now g = Inr g' \<Longrightarrow> elixirState g' = elixirState g"
  unfolding updateUnits_def by (rule forEachIndex_elixir [OF unit_update_elixir])


lemma updateProjectiles_elixir [simp]: "elixirState (updateProjectiles dt g) = elixirState g"
  by (simp add: updateProjectiles_def)

lemma tw_update_elixir [simp]: "elixirState (tw_update now k g) = elixirState g"
  by (simp add: tw_update_def tw_attemptAttack_def tw_attack_def tw_findTarget_def Let_def
      split: option.splits)

lemma fold_tw_update_elixir [simp]: "elixirState (fold (tw_update now) ks g) = elixirState g"
  by (induction ks arbitrary: g) simp_all

lemma updateTowers_elixir [simp]: "elixirState (updateTowers now g) = elixirState g"
  by (simp add: updateTowers_def)

lemma meleePair_elixir:
  assumes "meleePair i j g = Inr g'"
  shows "elixirState g' = elixirState g"
proof (cases "\<not> alive (units g ! j) \<or> team (units g ! i) = team (units g ! j)")
  case True
  then show ?thesis using assms by (simp add: meleePair_def Let_def)
next
  case False
  let ?d = "distanceTo (position (units g ! i)) (position (units g ! j))"
  obtain g1 where g1: "(if ?d < attackRange (units g ! i)
                     then attack i (UnitRef j) Undefined g else Inr g) = Inr g1"
    and g2: "(if ?d < attackRange (units g1 ! j)
                   then attack j (UnitRef i) Undefined g1 else Inr g1) = Inr g'"
    using assms False by (simp add: meleePair_def Let_def split: sum.splits)
  have l1: "elixirState g1 = elixirState g"
    using g1 attack_elixir by (cases "?d < attackRange (units g ! i)") auto
  have l2: "elixirState g' = elixirState g1"
    using g2 attack_elixir by (cases "?d < attackRange (units g1 ! j)") auto
  show ?thesis using l1 l2 by simp
qed

lemma meleeInner_elixir:
  "meleeInner i j g = Inr g' \<Longrightarrow> elixirState g' = elixirState g"
proof (induction i j g rule: meleeInner.induct)
  case (1 i j g)
  show ?case
  proof (cases "j < length (units g)")
    case True
    have "(case meleePair i j g of Inl e \<Rightarrow> Inl e | Inr g1 \<Rightarrow> meleeInner i (j + 1) g1) = Inr g'"
      using "1.prems" True meleeInner.simps [of i j g] by simp
    then obtain g1 where g1: "meleePair i j g = Inr g1" and r: "meleeInner i (j + 1) g1 = Inr g'"
      by (cases "meleePair i j g") auto
    have "elixirState g' = elixirState g1" using "1.IH" [OF True g1 r] .
    then show ?thesis using meleePair_elixir [OF g1] by simp
  next
    case False
    then show ?thesis using "1.prems" meleeInner.simps [of i j g] by simp
  qed
qed

lemma meleeOuter_elixir:
  "meleeOuter i g = Inr g' \<Longrightarrow> elixirState g' = elixirState g"
proof (induction i g rule: meleeOuter.induct)
  case (1 i g)
  show ?case
  proof (cases "i < length (units g)")
    case False
    then show ?thesis using "1.prems" meleeOuter.simps [of i g] by simp
  next
    case True
    show ?thesis
    proof (cases "alive (units g ! i)")
      case False
      have "meleeOuter (i + 1) g = Inr g'"
        using "1.prems" True False meleeOuter.simps [of i g] by simp
      then show ?thesis using "1.IH"(1) True False by simp
    next
      case al: True
      have "(case meleeInner i (i + 1) g of Inl e \<Rightarrow> Inl e | Inr g1 \<Rightarrow> meleeOuter (i + 1) g1)
            = Inr g'"
        using "1.prems" True al meleeOuter.simps [of i g] by simp
      then obtain g1 where g1: "meleeInner i (i + 1) g = Inr g1"
        and r: "meleeOuter (i + 1) g1 = Inr g'"
        by (cases "meleeInner i (i + 1) g") auto
      have "elixirState g' = elixirState g1" using "1.IH"(2) True al g1 r by simp
      then show ?thesis using meleeInner_elixir [OF g1] by simp
    qed
  qed
qed

lemma projectileCollisions_elixir [simp]: "elixirState (projectileCollisions g) = elixirState g"
  by (simp add: projectileCollisions_def split: prod.splits)

lemma checkCollisions_elixir:
  "checkCollisions g = Inr g' \<Longrightarrow> elixirState g' = elixirState g"
  by (auto simp add: checkCollisions_def split: sum.splits dest: meleeOuter_elixir)

lemma cleanupEntities_elixir [simp]: "elixirState (cleanupEntities g) = elixirState g"
  by (simp add: cleanupEntities_def)

lemma checkWinConditions_elixir:
  "checkWinConditions g = Inr g' \<Longrightarrow> elixirState g' = elixirState g"
  by (auto simp add: checkWinConditions_def endGame_def split: option.splits if_splits)

lemma update_elixir:
  assumes "update dt now g = Inr g'"
  shows "elixirState g' = elixirState (updateElixir dt g)"
proof -
  obtain g1 g2 where a: "updateUnits dt now (updateElixir dt g) = Inr g1"
    and b: "checkCollisions (updateTowers now (updateProjectiles dt g1)) = Inr g2"
    and c: "checkWinConditions (cleanupEntities g2) = Inr g'"
    using assms by (auto simp add: update_def split: sum.splits)
  show ?thesis
    using updateUnits_elixir [OF a] checkCollisions_elixir [OF b] checkWinConditions_elixir [OF c]
    by simp
qed


section \<open>What each phase leaves unchanged: the zones\<close>

lemma zoneState_units_update [simp]: "zoneState (g\<lparr>units := us\<rparr>) = zoneState g"
  and zoneState_towers_update [simp]: "zoneState (g\<lparr>towers := ts\<rparr>) = zoneState g"
  and zoneState_projectiles_update [simp]: "zoneState (g\<lparr>projectiles := ps\<rparr>) = zoneState g"
  and zoneState_running_update [simp]: "zoneState (g\<lparr>running := b\<rparr>) = zoneState g"
  by (simp_all add: zoneState_def)

lemma target_takeDamage_zone [simp]: "zoneState (target_takeDamage r a g) = zoneState g"
  by (simp add: target_takeDamage_def split: target_ref.splits)


lemma findTarget_zone [simp]: "zoneState (findTarget i g) = zoneState g"
  by (simp add: findTarget_def Let_def)

lemma move_zone [simp]: "zoneState (move i dt g) = zoneState g"
  by (simp add: move_def Let_def split: option.splits)






lemma updateProjectiles_zone [simp]: "zoneState (updateProjectiles dt g) = zoneState g"
  by (simp add: updateProjectiles_def)

lemma tw_update_zone [simp]: "zoneState (tw_update now k g) = zoneState g"
  by (simp add: tw_update_def tw_attemptAttack_def tw_attack_def tw_findTarget_def Let_def
      split: option.splits)

lemma fold_tw_update_zone [simp]: "zoneState (fold (tw_update now) ks g) = zoneState g"
  by (induction ks arbitrary: g) simp_all

lemma updateTowers_zone [simp]: "zoneState (updateTowers now g) = zoneState g"
  by (simp add: updateTowers_def)




lemma projectileCollisions_zone [simp]: "zoneState (projectileCollisions g) = zoneState g"
  by (simp add: projectileCollisions_def split: prod.splits)


lemma cleanupEntities_zone [simp]: "zoneState (cleanupEntities g) = zoneState g"
  by (simp add: cleanupEntities_def)



lemma updateElixir_zone [simp]: "zoneState (updateElixir dt g) = zoneState g"
  by (simp add: zoneState_def updateElixir_def Let_def)






section \<open>Placement\<close>

lemma getUnitData_cost_pos: "getUnitData ty = Some d \<Longrightarrow> 0 < ud_cost d"
  by (auto simp add: getUnitData_def Let_def split: if_splits)







section \<open>Resource regeneration\<close>

lemma elixirInv_cong: "elixirState g' = elixirState g \<Longrightarrow> elixirInv g' = elixirInv g"
  by (simp add: elixirInv_def elixirState_def)

lemma updateElixir_inv: "elixirInv g \<Longrightarrow> elixirInv (updateElixir dt g)"
  by (simp add: elixirInv_def updateElixir_def Let_def)

lemma tryPlaceUnit_inv: "elixirInv g \<Longrightarrow> elixirInv (tryPlaceUnit g)"
  using getUnitData_cost_pos [of "the (selectedCard g)"]
  by (auto simp add: elixirInv_def tryPlaceUnit_def cancelCardPlacement_def spawnUnit_def Let_def
      split: option.splits)

lemma gameLoop_inv:
  assumes "elixirInv g" and "gameLoop dt now g = Inr g'"
  shows "elixirInv g'"
proof (cases "running g")
  case False
  then show ?thesis using assms by (simp add: gameLoop_def)
next
  case True
  then have "update dt now g = Inr g'" using assms(2) by (simp add: gameLoop_def)
  then have "elixirInv g' = elixirInv (updateElixir dt g)"
    by (intro elixirInv_cong update_elixir)
  then show ?thesis using updateElixir_inv [OF assms(1)] by simp
qed

lemma step_inv:
  assumes "elixirInv g" and "step e g = Inr g'"
  shows "elixirInv g'"
proof (cases e)
  case (Start dt now)
  then have "gameLoop dt now (g\<lparr>running := True\<rparr>) = Inr g'"
    using assms(2) by (simp add: start_def)
  moreover have "elixirInv (g\<lparr>running := True\<rparr>)" using assms(1) by (simp add: elixirInv_def)
  ultimately show ?thesis by (rule gameLoop_inv [rotated])
next
  case Stop
  then show ?thesis using assms by (auto simp add: stop_def elixirInv_def)
next
  case (Tick dt now)
  then have "gameLoop dt now g = Inr g'" using assms(2) by simp
  then show ?thesis using assms(1) by (rule gameLoop_inv [rotated])
next
  case (SelectCard c)
  then show ?thesis using assms by (auto simp add: selectCard_def elixirInv_def)
next
  case (MouseMove p)
  then show ?thesis using assms by (auto simp add: handleMouseMove_def elixirInv_def)
next
  case (MouseUp p)
  have "elixirInv (g\<lparr>mousePos := p, isMouseDown := False\<rparr>)"
    using assms(1) by (simp add: elixirInv_def)
  then show ?thesis
    using MouseUp assms(2) tryPlaceUnit_inv [of "g\<lparr>mousePos := p, isMouseDown := False\<rparr>"]
    by (auto simp add: handleMouseUp_def Let_def split: if_splits)
next
  case TouchEnd
  have "elixirInv (g\<lparr>isMouseDown := False\<rparr>)"
    using assms(1) by (simp add: elixirInv_def)
  then show ?thesis
    using TouchEnd assms(2) tryPlaceUnit_inv [of "g\<lparr>isMouseDown := False\<rparr>"]
    by (auto simp add: handleTouchEnd_def Let_def split: if_splits)
next
  case (EnemyAI r1 r2 r3)
  then show ?thesis
    using assms by (auto simp add: enemyAITimer_def enemyAI_def spawnUnit_def elixirInv_def
        Let_def split: if_splits)
qed

lemma run_inv: "elixirInv g \<Longrightarrow> run es g = Inr g' \<Longrightarrow> elixirInv g'"
proof (induction es arbitrary: g)
  case Nil
  then show ?case by simp
next
  case (Cons e es)
  then obtain g1 where a: "step e g = Inr g1" and b: "run es g1 = Inr g'"
    by (auto split: sum.splits)
  show ?case using Cons.IH [OF step_inv [OF Cons.prems(1) a] b] .
qed

text \<open>
  C4. With the regeneration rate 1 and the cap 10 that the constructor sets:
  \<open>updateElixir\<close> adds the elapsed time to the accumulator; when the sum is at least 1 it
  adds 1 to the elixir, capped at 10, and resets the accumulator to 0, dropping the
  excess; otherwise the elixir is unchanged. One call adds at most 1, however long the
  frame. The rest of a tick changes neither the elixir nor the accumulator. From an
  accumulator of 0, advancing 0.5 s and then 0.6 s gives exactly one increment. Over any
  sequence of events that runs without an exception, an elixir amount in \<open>[0, 10]\<close> stays
  in \<open>[0, 10]\<close>.
\<close>

theorem updateElixir_regen_bounds:
  assumes "elixirRegenRate g = 1" and "maxElixir g = 10"
  shows "(lastElixirRegen g + deltaTime \<ge> 1
           \<longrightarrow> playerElixir (updateElixir deltaTime g) = min (playerElixir g + 1) 10
             \<and> lastElixirRegen (updateElixir deltaTime g) = 0)
       \<and> (lastElixirRegen g + deltaTime < 1
           \<longrightarrow> playerElixir (updateElixir deltaTime g) = playerElixir g
             \<and> lastElixirRegen (updateElixir deltaTime g) = lastElixirRegen g + deltaTime)
       \<and> playerElixir (updateElixir deltaTime g) \<le> playerElixir g + 1
       \<and> (update deltaTime now g = Inr g'
           \<longrightarrow> playerElixir g' = playerElixir (updateElixir deltaTime g)
             \<and> lastElixirRegen g' = lastElixirRegen (updateElixir deltaTime g))
       \<and> (lastElixirRegen g = 0
           \<longrightarrow> playerElixir (updateElixir 0.6 (updateElixir 0.5 g)) = min (playerElixir g + 1) 10
             \<and> lastElixirRegen (updateElixir 0.6 (updateElixir 0.5 g)) = 0)
       \<and> (0 \<le> playerElixir g \<and> playerElixir g \<le> 10 \<and> run es g = Inr g''
           \<longrightarrow> 0 \<le> playerElixir g'' \<and> playerElixir g'' \<le> 10)"
proof -
  have 1: "lastElixirRegen g + deltaTime \<ge> 1
           \<longrightarrow> playerElixir (updateElixir deltaTime g) = min (playerElixir g + 1) 10
             \<and> lastElixirRegen (updateElixir deltaTime g) = 0"
    using assms by (simp add: updateElixir_def Let_def)
  have 2: "lastElixirRegen g + deltaTime < 1
           \<longrightarrow> playerElixir (updateElixir deltaTime g) = playerElixir g
             \<and> lastElixirRegen (updateElixir deltaTime g) = lastElixirRegen g + deltaTime"
    by (simp add: updateElixir_def Let_def)
  have 3: "playerElixir (updateElixir deltaTime g) \<le> playerElixir g + 1"
    using assms by (simp add: updateElixir_def Let_def)
  have 4: "update deltaTime now g = Inr g'
           \<longrightarrow> playerElixir g' = playerElixir (updateElixir deltaTime g)
             \<and> lastElixirRegen g' = lastElixirRegen (updateElixir deltaTime g)"
    using update_elixir [of deltaTime now g g'] by (simp add: elixirState_def)
  have 5: "lastElixirRegen g = 0
           \<longrightarrow> playerElixir (updateElixir 0.6 (updateElixir 0.5 g)) = min (playerElixir g + 1) 10
             \<and> lastElixirRegen (updateElixir 0.6 (updateElixir 0.5 g)) = 0"
    using assms by (simp add: updateElixir_def Let_def)
  have 6: "0 \<le> playerElixir g \<and> playerElixir g \<le> 10 \<and> run es g = Inr g''
           \<longrightarrow> 0 \<le> playerElixir g'' \<and> playerElixir g'' \<le> 10"
  proof
    assume h: "0 \<le> playerElixir g \<and> playerElixir g \<le> 10 \<and> run es g = Inr g''"
    then have "elixirInv g" using assms by (simp add: elixirInv_def)
    then have "elixirInv g''" using h run_inv by blast
    then show "0 \<le> playerElixir g'' \<and> playerElixir g'' \<le> 10" by (simp add: elixirInv_def)
  qed
  show ?thesis using 1 2 3 4 5 6 by blast
qed


lemmas tick_defs = update_def updateElixir_def updateUnits_def updateProjectiles_def
  updateTowers_def checkCollisions_def projectileCollisions_def cleanupEntities_def
  checkWinConditions_def endGame_def tw_update_def tw_findTarget_def tw_attemptAttack_def
  newTower_def Let_def

lemma update_exGame_1:
  "update 0.5 1000 (exGame\<lparr>playerElixir := 7\<rparr>)
     = Inr (exGame\<lparr>playerElixir := 7, lastElixirRegen := 0.5\<rparr>)"
  by (simp add: exGame_def newGame_def tick_defs meleeOuter.simps [of 0])

lemma gameLoop_exGame_1:
  "gameLoop 0.5 1000 (exGame\<lparr>playerElixir := 7\<rparr>)
     = Inr (exGame\<lparr>playerElixir := 7, lastElixirRegen := 0.5\<rparr>)"
  by (simp add: gameLoop_def exGame_def newGame_def tick_defs meleeOuter.simps [of 0])

lemma gameLoop_exGame_2:
  "gameLoop 0.6 1016 (exGame\<lparr>playerElixir := 7, lastElixirRegen := 0.5\<rparr>)
     = Inr (exGame\<lparr>playerElixir := 8, lastElixirRegen := 0\<rparr>)"
  by (simp add: gameLoop_def exGame_def newGame_def tick_defs meleeOuter.simps [of 0])

theorem updateElixir_regen_bounds_witness:
  "playerElixir (updateElixir 0.6 (updateElixir 0.5 (exGame\<lparr>playerElixir := 7\<rparr>))) = 8
   \<and> lastElixirRegen (updateElixir 0.6 (updateElixir 0.5 (exGame\<lparr>playerElixir := 7\<rparr>))) = 0
   \<and> lastElixirRegen (updateElixir 0.5 (exGame\<lparr>playerElixir := 7\<rparr>)) = 0.5
   \<and> playerElixir (updateElixir 2.5 (exGame\<lparr>playerElixir := 7\<rparr>)) = 8
   \<and> run [Tick 0.5 1000, Tick 0.6 1016] (exGame\<lparr>playerElixir := 7\<rparr>)
       = Inr (exGame\<lparr>playerElixir := 8, lastElixirRegen := 0\<rparr>)"
proof -
  let ?g = "exGame\<lparr>playerElixir := 7\<rparr>"
  have a: "elixirRegenRate ?g = 1" "maxElixir ?g = 10" "lastElixirRegen ?g = 0"
    "playerElixir ?g = 7"
    by (simp_all add: exGame_def newGame_def)
  have r: "run [Tick 0.5 1000, Tick 0.6 1016] ?g
       = Inr (exGame\<lparr>playerElixir := 8, lastElixirRegen := 0\<rparr>)"
    by (simp only: run.simps step.simps gameLoop_exGame_1 gameLoop_exGame_2 sum.case)
  have b: "0 \<le> playerElixir ?g \<and> playerElixir ?g \<le> 10
           \<and> run [Tick 0.5 1000, Tick 0.6 1016] ?g
               = Inr (exGame\<lparr>playerElixir := 8, lastElixirRegen := 0\<rparr>)"
    using a r by simp
  have c: "lastElixirRegen ?g + 0.5 < 1" "lastElixirRegen ?g + 2.5 \<ge> 1"
    using a by simp_all
  show ?thesis
    using updateElixir_regen_bounds [OF a(1) a(2), of "0.5" 1000
            "exGame\<lparr>playerElixir := 7, lastElixirRegen := 0.5\<rparr>"
            "[Tick 0.5 1000, Tick 0.6 1016]" "exGame\<lparr>playerElixir := 8, lastElixirRegen := 0\<rparr>"]
      updateElixir_regen_bounds [OF a(1) a(2), of "2.5"]
      a b c update_exGame_1 r
    by simp
qed


section \<open>Cooldown-gated attacks\<close>

lemma attack_GameRef:
  "\<exists>g'. attack i tgt GameRef g = Inr g'"
  by (simp add: attack_def createProjectile_def Let_def)

lemma attack_units_length:
  "attack i tgt game g = Inr g' \<Longrightarrow> length (units g') = length (units g)"
  by (auto simp add: attack_def createProjectile_def Let_def target_takeDamage_length
      split: if_splits game_arg.splits)

text \<open>
  C6. \<open>attemptAttack\<close> of a unit and of a tower changes the state only when the
  combatant has a target, the target is alive, the distance to it is at most the attack
  range, and the time since \<open>lastAttack\<close> is at least the cooldown. When these hold the
  attack is made and \<open>lastAttack\<close> becomes the current time, whatever the kind of attack.
  The constructors set the cooldown to 1000 ms for a unit and to 800 ms for a tower.
\<close>

theorem attemptAttack_gated:
  assumes "i < length (units g)" and "k < length (towers g)"
  shows "(attemptAttack i now g \<noteq> Inr g \<longrightarrow>
            (\<exists>tgt. target (units g ! i) = Some tgt \<and> targetAlive g tgt
               \<and> distanceTo (position (units g ! i)) (targetPosition g tgt)
                    \<le> attackRange (units g ! i)
               \<and> now - lastAttack (units g ! i) \<ge> attackCooldown (units g ! i)))
       \<and> (\<forall>tgt. target (units g ! i) = Some tgt \<and> targetAlive g tgt
               \<and> distanceTo (position (units g ! i)) (targetPosition g tgt)
                    \<le> attackRange (units g ! i)
               \<and> now - lastAttack (units g ! i) \<ge> attackCooldown (units g ! i)
             \<longrightarrow> (\<exists>g1 g'. attack i tgt GameRef g = Inr g1
                    \<and> attemptAttack i now g = Inr g'
                    \<and> g' = g1\<lparr>units := (units g1)[i := (units g1 ! i)\<lparr>lastAttack := now\<rparr>]\<rparr>
                    \<and> lastAttack (units g' ! i) = now))
       \<and> (tw_attemptAttack k now g \<noteq> g \<longrightarrow>
            (\<exists>tgt. tw_target (towers g ! k) = Some tgt \<and> targetAlive g tgt
               \<and> distanceTo (tw_position (towers g ! k)) (targetPosition g tgt)
                    \<le> tw_attackRange (towers g ! k)
               \<and> now - tw_lastAttack (towers g ! k) \<ge> tw_attackCooldown (towers g ! k)))
       \<and> (\<forall>tgt. tw_target (towers g ! k) = Some tgt \<and> targetAlive g tgt
               \<and> distanceTo (tw_position (towers g ! k)) (targetPosition g tgt)
                    \<le> tw_attackRange (towers g ! k)
               \<and> now - tw_lastAttack (towers g ! k) \<ge> tw_attackCooldown (towers g ! k)
             \<longrightarrow> tw_attemptAttack k now g
                   = (tw_attack k tgt g)\<lparr>towers :=
                        (towers g)[k := (towers g ! k)\<lparr>tw_lastAttack := now\<rparr>]\<rparr>
                 \<and> tw_lastAttack (towers (tw_attemptAttack k now g) ! k) = now)
       \<and> attackCooldown (newUnit pos ty tm) = 1000
       \<and> tw_attackCooldown (newTower pos tm) = 800"
proof -
  have 1: "attemptAttack i now g \<noteq> Inr g \<longrightarrow>
            (\<exists>tgt. target (units g ! i) = Some tgt \<and> targetAlive g tgt
               \<and> distanceTo (position (units g ! i)) (targetPosition g tgt)
                    \<le> attackRange (units g ! i)
               \<and> now - lastAttack (units g ! i) \<ge> attackCooldown (units g ! i))"
    by (cases "target (units g ! i)")
       (auto simp add: attemptAttack_def Let_def split: if_splits)
  have 2: "\<forall>tgt. target (units g ! i) = Some tgt \<and> targetAlive g tgt
               \<and> distanceTo (position (units g ! i)) (targetPosition g tgt)
                    \<le> attackRange (units g ! i)
               \<and> now - lastAttack (units g ! i) \<ge> attackCooldown (units g ! i)
             \<longrightarrow> (\<exists>g1 g'. attack i tgt GameRef g = Inr g1
                    \<and> attemptAttack i now g = Inr g'
                    \<and> g' = g1\<lparr>units := (units g1)[i := (units g1 ! i)\<lparr>lastAttack := now\<rparr>]\<rparr>
                    \<and> lastAttack (units g' ! i) = now)"
  proof (intro allI impI)
    fix tgt
    assume h: "target (units g ! i) = Some tgt \<and> targetAlive g tgt
               \<and> distanceTo (position (units g ! i)) (targetPosition g tgt)
                    \<le> attackRange (units g ! i)
               \<and> now - lastAttack (units g ! i) \<ge> attackCooldown (units g ! i)"
    obtain g1 where g1: "attack i tgt GameRef g = Inr g1" using attack_GameRef by blast
    have len: "i < length (units g1)" using attack_units_length [OF g1] assms(1) by simp
    let ?g' = "g1\<lparr>units := (units g1)[i := (units g1 ! i)\<lparr>lastAttack := now\<rparr>]\<rparr>"
    have "attemptAttack i now g = Inr ?g'"
      using h g1 by (simp add: attemptAttack_def Let_def)
    moreover have "lastAttack (units ?g' ! i) = now" using len by simp
    ultimately show "\<exists>g1 g'. attack i tgt GameRef g = Inr g1
                    \<and> attemptAttack i now g = Inr g'
                    \<and> g' = g1\<lparr>units := (units g1)[i := (units g1 ! i)\<lparr>lastAttack := now\<rparr>]\<rparr>
                    \<and> lastAttack (units g' ! i) = now"
      using g1 by blast
  qed
  have 3: "tw_attemptAttack k now g \<noteq> g \<longrightarrow>
            (\<exists>tgt. tw_target (towers g ! k) = Some tgt \<and> targetAlive g tgt
               \<and> distanceTo (tw_position (towers g ! k)) (targetPosition g tgt)
                    \<le> tw_attackRange (towers g ! k)
               \<and> now - tw_lastAttack (towers g ! k) \<ge> tw_attackCooldown (towers g ! k))"
    by (cases "tw_target (towers g ! k)")
       (auto simp add: tw_attemptAttack_def Let_def split: if_splits)
  have 4: "\<forall>tgt. tw_target (towers g ! k) = Some tgt \<and> targetAlive g tgt
               \<and> distanceTo (tw_position (towers g ! k)) (targetPosition g tgt)
                    \<le> tw_attackRange (towers g ! k)
               \<and> now - tw_lastAttack (towers g ! k) \<ge> tw_attackCooldown (towers g ! k)
             \<longrightarrow> tw_attemptAttack k now g
                   = (tw_attack k tgt g)\<lparr>towers :=
                        (towers g)[k := (towers g ! k)\<lparr>tw_lastAttack := now\<rparr>]\<rparr>
                 \<and> tw_lastAttack (towers (tw_attemptAttack k now g) ! k) = now"
    using assms(2) by (simp add: tw_attemptAttack_def tw_attack_def Let_def)
  have 5: "attackCooldown (newUnit pos ty tm) = 1000 \<and> tw_attackCooldown (newTower pos tm) = 800"
    by (simp add: newUnit_def newTower_def Let_def)
  show ?thesis using 1 2 3 4 5 by blast
qed




lemmas ex_defs = exBattle_def exGame_def newGame_def newUnit_def newTower_def getUnitStats_def
  knightStats_def targetAlive_def targetPosition_def distanceTo_def Let_def

theorem attemptAttack_gated_witness:
  "attemptAttack 0 500 exBattle = Inr exBattle
   \<and> (case attemptAttack 0 5000 exBattle of
         Inl e \<Rightarrow> False
       | Inr g' \<Rightarrow> lastAttack (units g' ! 0) = 5000 \<and> health (units g' ! 1) = 1050)
   \<and> tw_attemptAttack 1 500 exBattle = exBattle
   \<and> tw_lastAttack (towers (tw_attemptAttack 1 5000 exBattle) ! 1) = 5000"
proof -
  have len: "0 < length (units exBattle)" "1 < length (towers exBattle)"
    by (simp_all add: ex_defs)
  have c: "target (units exBattle ! 0) = Some (UnitRef 1) \<and> targetAlive exBattle (UnitRef 1)
               \<and> distanceTo (position (units exBattle ! 0)) (targetPosition exBattle (UnitRef 1))
                    \<le> attackRange (units exBattle ! 0)
               \<and> 5000 - lastAttack (units exBattle ! 0) \<ge> attackCooldown (units exBattle ! 0)"
    by (simp add: ex_defs)
  have n: "\<not> (\<exists>tgt. target (units exBattle ! 0) = Some tgt \<and> targetAlive exBattle tgt
               \<and> distanceTo (position (units exBattle ! 0)) (targetPosition exBattle tgt)
                    \<le> attackRange (units exBattle ! 0)
               \<and> 500 - lastAttack (units exBattle ! 0) \<ge> attackCooldown (units exBattle ! 0))"
    by (simp add: ex_defs)
  have tc: "tw_target (towers exBattle ! 1) = Some (UnitRef 0) \<and> targetAlive exBattle (UnitRef 0)
               \<and> distanceTo (tw_position (towers exBattle ! 1)) (targetPosition exBattle (UnitRef 0))
                    \<le> tw_attackRange (towers exBattle ! 1)
               \<and> 5000 - tw_lastAttack (towers exBattle ! 1) \<ge> tw_attackCooldown (towers exBattle ! 1)"
    by (simp add: ex_defs)
  have tn: "\<not> (\<exists>tgt. tw_target (towers exBattle ! 1) = Some tgt \<and> targetAlive exBattle tgt
               \<and> distanceTo (tw_position (towers exBattle ! 1)) (targetPosition exBattle tgt)
                    \<le> tw_attackRange (towers exBattle ! 1)
               \<and> 500 - tw_lastAttack (towers exBattle ! 1) \<ge> tw_attackCooldown (towers exBattle ! 1))"
    by (simp add: ex_defs)
  have a: "attack 0 (UnitRef 1) GameRef exBattle
           = Inr (exBattle\<lparr>units := (units exBattle)[1 := takeDamage (units exBattle ! 1) 150]\<rparr>)"
    by (simp add: attack_def target_takeDamage_def ex_defs)
  have h: "health (takeDamage (units exBattle ! 1) 150) = 1050"
    by (simp add: takeDamage_def ex_defs)
  have l2: "length (units exBattle) = 2" by (simp add: ex_defs)
  note T5 = attemptAttack_gated [OF len, of 5000]
  note T1 = attemptAttack_gated [OF len, of 500]
  have p1: "attemptAttack 0 500 exBattle = Inr exBattle" using T1 n by blast
  have p3: "tw_attemptAttack 1 500 exBattle = exBattle" using T1 tn by blast
  have p4: "tw_lastAttack (towers (tw_attemptAttack 1 5000 exBattle) ! 1) = 5000"
    using T5 tc by blast
  obtain g1 g' where g: "attack 0 (UnitRef 1) GameRef exBattle = Inr g1"
      "attemptAttack 0 5000 exBattle = Inr g'"
      "g' = g1\<lparr>units := (units g1)[0 := (units g1 ! 0)\<lparr>lastAttack := 5000\<rparr>]\<rparr>"
      "lastAttack (units g' ! 0) = 5000"
    using T5 c by blast
  have "health (units g' ! 1) = 1050" using g(1,3) a h l2 by auto
  then have p2: "(case attemptAttack 0 5000 exBattle of
         Inl e \<Rightarrow> False
       | Inr g' \<Rightarrow> lastAttack (units g' ! 0) = 5000 \<and> health (units g' ! 1) = 1050)"
    using g(2,4) by simp
  show ?thesis using p1 p2 p3 p4 by blast
qed


section \<open>Melee and ranged attacks\<close>

text \<open>
  C8, as stated, fails for towers: the enemy tower of \<open>exBattle\<close> fires at the player's
  knight (its \<open>lastAttack\<close> becomes the current time and one projectile is appended), and
  the knight still has its 1200 health, not 1200 minus the tower's damage of 200.
\<close>

theorem tower_attack_direct_counterexample:
  "tw_lastAttack (towers (tw_attemptAttack 1 5000 exBattle) ! 1) = 5000
   \<and> length (projectiles (tw_attemptAttack 1 5000 exBattle)) = 1
   \<and> tw_damage (towers exBattle ! 1) = 200
   \<and> health (units exBattle ! 0) = 1200
   \<and> health (units (tw_attemptAttack 1 5000 exBattle) ! 0) = 1200
   \<and> health (units (tw_attemptAttack 1 5000 exBattle) ! 0)
        \<noteq> health (units exBattle ! 0) - tw_damage (towers exBattle ! 1)"
  by (simp add: tw_attemptAttack_def tw_attack_def ex_defs)

text \<open>
  C8, amended. When \<open>attemptAttack\<close> fires: a unit whose type is neither archer nor wizard
  (a knight or a giant) applies its damage to the target at once with \<open>takeDamage\<close> and
  appends no projectile; an archer or a wizard, and every tower, appends one projectile
  that carries the attacker's damage and team, the attacker's position and a copy of the
  target's position, and changes no unit or tower except for its own \<open>lastAttack\<close>, so
  the target's health is unchanged at fire time.
\<close>

theorem attack_melee_or_projectile:
  "(fires i now g tgt \<and> utype (units g ! i) \<noteq> ''archer'' \<and> utype (units g ! i) \<noteq> ''wizard''
          \<longrightarrow> (\<exists>g'. attemptAttack i now g = Inr g'
                \<and> projectiles g' = projectiles g
                \<and> (case tgt of
                      UnitRef j \<Rightarrow>
                        towers g' = towers g
                        \<and> units g' = ((units g)[j := takeDamage (units g ! j) (damage (units g ! i))])
                                      [i := ((units g)[j := takeDamage (units g ! j)
                                                (damage (units g ! i))] ! i)\<lparr>lastAttack := now\<rparr>]
                    | TowerRef m \<Rightarrow>
                        towers g' = (towers g)[m := tw_takeDamage (towers g ! m)
                                                      (damage (units g ! i))]
                        \<and> units g' = (units g)[i := (units g ! i)\<lparr>lastAttack := now\<rparr>])))
       \<and> (fires i now g tgt \<and> (utype (units g ! i) = ''archer'' \<or> utype (units g ! i) = ''wizard'')
          \<longrightarrow> attemptAttack i now g =
                Inr (g\<lparr>projectiles := projectiles g @
                         [\<lparr>p_position = position (units g ! i),
                           p_target = targetPosition g tgt, p_speed = 200,
                           p_damage = damage (units g ! i), p_team = team (units g ! i),
                           p_alive = True, p_type = utype (units g ! i),
                           p_update = UnitProjectileUpdate\<rparr>],
                       units := (units g)[i := (units g ! i)\<lparr>lastAttack := now\<rparr>]\<rparr>))
       \<and> (tw_fires k now g tgt
          \<longrightarrow> tw_attemptAttack k now g =
                g\<lparr>projectiles := projectiles g @
                     [\<lparr>p_position = tw_position (towers g ! k),
                       p_target = targetPosition g tgt, p_speed = 300,
                       p_damage = tw_damage (towers g ! k), p_team = tw_team (towers g ! k),
                       p_alive = True, p_type = ''tower'',
                       p_update = TowerProjectileUpdate\<rparr>],
                   towers := (towers g)[k := (towers g ! k)\<lparr>tw_lastAttack := now\<rparr>]\<rparr>)"
proof -
  have 1: "fires i now g tgt \<and> utype (units g ! i) \<noteq> ''archer'' \<and> utype (units g ! i) \<noteq> ''wizard''
          \<longrightarrow> (\<exists>g'. attemptAttack i now g = Inr g'
                \<and> projectiles g' = projectiles g
                \<and> (case tgt of
                      UnitRef j \<Rightarrow>
                        towers g' = towers g
                        \<and> units g' = ((units g)[j := takeDamage (units g ! j) (damage (units g ! i))])
                                      [i := ((units g)[j := takeDamage (units g ! j)
                                                (damage (units g ! i))] ! i)\<lparr>lastAttack := now\<rparr>]
                    | TowerRef m \<Rightarrow>
                        towers g' = (towers g)[m := tw_takeDamage (towers g ! m)
                                                      (damage (units g ! i))]
                        \<and> units g' = (units g)[i := (units g ! i)\<lparr>lastAttack := now\<rparr>]))"
    by (cases tgt)
       (simp_all add: fires_def attemptAttack_def attack_def target_takeDamage_def Let_def)
  have 2: "fires i now g tgt \<and> (utype (units g ! i) = ''archer'' \<or> utype (units g ! i) = ''wizard'')
          \<longrightarrow> attemptAttack i now g =
                Inr (g\<lparr>projectiles := projectiles g @
                         [\<lparr>p_position = position (units g ! i),
                           p_target = targetPosition g tgt, p_speed = 200,
                           p_damage = damage (units g ! i), p_team = team (units g ! i),
                           p_alive = True, p_type = utype (units g ! i),
                           p_update = UnitProjectileUpdate\<rparr>],
                       units := (units g)[i := (units g ! i)\<lparr>lastAttack := now\<rparr>]\<rparr>)"
    by (auto simp add: fires_def attemptAttack_def attack_def createProjectile_def Let_def)
  have 3: "tw_fires k now g tgt
          \<longrightarrow> tw_attemptAttack k now g =
                g\<lparr>projectiles := projectiles g @
                     [\<lparr>p_position = tw_position (towers g ! k),
                       p_target = targetPosition g tgt, p_speed = 300,
                       p_damage = tw_damage (towers g ! k), p_team = tw_team (towers g ! k),
                       p_alive = True, p_type = ''tower'',
                       p_update = TowerProjectileUpdate\<rparr>],
                   towers := (towers g)[k := (towers g ! k)\<lparr>tw_lastAttack := now\<rparr>]\<rparr>"
    by (simp add: tw_fires_def tw_attemptAttack_def tw_attack_def Let_def)
  show ?thesis using 1 2 3 by blast
qed


theorem attack_melee_or_projectile_witness:
  "(case attemptAttack 0 5000 exBattle of
      Inl e \<Rightarrow> False
    | Inr g' \<Rightarrow> health (units g' ! 1) = 1050 \<and> projectiles g' = [])
   \<and> (case attemptAttack 0 5000 exSiege of
      Inl e \<Rightarrow> False
    | Inr g' \<Rightarrow> towers g' = towers exSiege
              \<and> map p_damage (projectiles g') = [100]
              \<and> map p_target (projectiles g') = [\<lparr>vx = 400, vy = 50\<rparr>]
              \<and> map p_team (projectiles g') = [Player])
   \<and> units (tw_attemptAttack 1 5000 exBattle) = units exBattle
   \<and> map p_damage (projectiles (tw_attemptAttack 1 5000 exBattle)) = [200]
   \<and> map p_target (projectiles (tw_attemptAttack 1 5000 exBattle)) = [\<lparr>vx = 400, vy = 150\<rparr>]"
proof -
  have f1: "fires 0 5000 exBattle (UnitRef 1) \<and> utype (units exBattle ! 0) \<noteq> ''archer''
            \<and> utype (units exBattle ! 0) \<noteq> ''wizard''"
    by (simp add: fires_def ex_defs)
  have f2: "fires 0 5000 exSiege (TowerRef 1)
            \<and> (utype (units exSiege ! 0) = ''archer'' \<or> utype (units exSiege ! 0) = ''wizard'')"
    by (simp add: fires_def exSiege_def ex_defs)
  have f3: "tw_fires 1 5000 exBattle (UnitRef 0)"
    by (simp add: tw_fires_def ex_defs)
  have v1: "health (takeDamage (units exBattle ! 1) (damage (units exBattle ! 0))) = 1050"
    "length (units exBattle) = 2" "projectiles exBattle = []"
    by (simp_all add: takeDamage_def ex_defs)
  have p1: "(case attemptAttack 0 5000 exBattle of
      Inl e \<Rightarrow> False
    | Inr g' \<Rightarrow> health (units g' ! 1) = 1050 \<and> projectiles g' = [])"
  proof -
    obtain g' where g': "attemptAttack 0 5000 exBattle = Inr g'"
      "projectiles g' = projectiles exBattle"
      "units g' = ((units exBattle)[1 := takeDamage (units exBattle ! 1)
                                            (damage (units exBattle ! 0))])
                   [0 := ((units exBattle)[1 := takeDamage (units exBattle ! 1)
                            (damage (units exBattle ! 0))] ! 0)\<lparr>lastAttack := 5000\<rparr>]"
      using attack_melee_or_projectile [of 0 5000 exBattle "UnitRef 1" 0] f1 by auto
    have "health (units g' ! 1) = 1050" using g'(3) v1 by simp
    then show ?thesis using g'(1,2) v1(3) by simp
  qed
  have v2: "projectiles exSiege = []" "damage (units exSiege ! 0) = 100"
    "targetPosition exSiege (TowerRef 1) = \<lparr>vx = 400, vy = 50\<rparr>" "team (units exSiege ! 0) = Player"
    by (simp_all add: exSiege_def ex_defs)
  have p2: "(case attemptAttack 0 5000 exSiege of
      Inl e \<Rightarrow> False
    | Inr g' \<Rightarrow> towers g' = towers exSiege
              \<and> map p_damage (projectiles g') = [100]
              \<and> map p_target (projectiles g') = [\<lparr>vx = 400, vy = 50\<rparr>]
              \<and> map p_team (projectiles g') = [Player])"
    using attack_melee_or_projectile [of 0 5000 exSiege "TowerRef 1"] f2 v2 by simp
  have v3: "tw_damage (towers exBattle ! 1) = 200"
    "targetPosition exBattle (UnitRef 0) = \<lparr>vx = 400, vy = 150\<rparr>"
    by (simp_all add: ex_defs)
  have p3: "units (tw_attemptAttack 1 5000 exBattle) = units exBattle
   \<and> map p_damage (projectiles (tw_attemptAttack 1 5000 exBattle)) = [200]
   \<and> map p_target (projectiles (tw_attemptAttack 1 5000 exBattle)) = [\<lparr>vx = 400, vy = 150\<rparr>]"
    using attack_melee_or_projectile [of 0 5000 exBattle "UnitRef 0" 1] f3 v1(3) v3 by simp
  show ?thesis using p1 p2 p3 by blast
qed


section \<open>Projectile against unit collisions\<close>

lemma hits_dead [simp]: "hits (p\<lparr>p_alive := b\<rparr>) u = hits p u"
  by (simp add: hits_def)

lemma hitUnits_Cons:
  "hitUnits p (u # us) =
     (if hits p u
      then (fst (hitUnits (p\<lparr>p_alive := False\<rparr>) us),
            takeDamage u (p_damage p) # snd (hitUnits (p\<lparr>p_alive := False\<rparr>) us))
      else (fst (hitUnits p us), u # snd (hitUnits p us)))"
  by (simp add: hits_def case_prod_beta)

lemma hitUnits_snd:
  "snd (hitUnits p us) = map (\<lambda>u. if hits p u then takeDamage u (p_damage p) else u) us"
proof (induction us arbitrary: p)
  case Nil
  then show ?case by simp
next
  case (Cons u us)
  show ?case
    using Cons.IH [of "p\<lparr>p_alive := False\<rparr>"] Cons.IH [of p]
    by (simp add: hitUnits_Cons del: hitUnits.simps)
qed

lemma hitUnits_fst:
  "fst (hitUnits p us) = (if \<exists>u \<in> set us. hits p u then p\<lparr>p_alive := False\<rparr> else p)"
proof (induction us arbitrary: p)
  case Nil
  then show ?case by simp
next
  case (Cons u us)
  show ?case
    using Cons.IH [of "p\<lparr>p_alive := False\<rparr>"] Cons.IH [of p]
    by (simp add: hitUnits_Cons del: hitUnits.simps)
qed

lemmas collision_eval = checkCollisions_def projectileCollisions_def meleeOuter.simps
  meleeInner.simps meleePair_def

text \<open>
  C1, as stated, fails: in \<open>exVolley\<close> both knights lie within their radius of 15 of the
  one projectile, and the collision pass takes the projectile's 100 damage from both, not
  only from the first in list order.
\<close>

theorem projectile_single_hit_counterexample:
  "(case checkCollisions exVolley of
      Inl e \<Rightarrow> False
    | Inr g' \<Rightarrow> map health (units exVolley) = [1200, 1200]
              \<and> map health (units g') = [1100, 1100]
              \<and> map p_alive (projectiles g') = [False])"
  by (simp add: collision_eval exVolley_def takeDamage_def ex_defs)


text \<open>
  C1, amended. In the projectile pass every projectile of the list, whether its \<open>alive\<close>
  flag is set or not, deals its damage to every unit that is alive, of the other team and
  within its own radius of the projectile's position when its turn comes, in list order;
  all other units are left as they are. The projectile's \<open>alive\<close> flag becomes false when
  at least one unit is hit and is unchanged otherwise. The projectiles are taken in list
  order, each one against the units as the previous ones left them.
\<close>

theorem projectile_hits_every_unit_in_radius:
  "hitUnits p us =
     (if \<exists>u \<in> set us. hits p u then p\<lparr>p_alive := False\<rparr> else p,
      map (\<lambda>u. if hits p u then takeDamage u (p_damage p) else u) us)
   \<and> hitProjectiles [] us = ([], us)
   \<and> hitProjectiles (p # ps) us =
       (fst (hitUnits p us) # fst (hitProjectiles ps (snd (hitUnits p us))),
        snd (hitProjectiles ps (snd (hitUnits p us))))
   \<and> projectileCollisions g =
       g\<lparr>units := snd (hitProjectiles (projectiles g) (units g)),
         projectiles := fst (hitProjectiles (projectiles g) (units g))\<rparr>"
proof -
  have 1: "hitUnits p us =
     (if \<exists>u \<in> set us. hits p u then p\<lparr>p_alive := False\<rparr> else p,
      map (\<lambda>u. if hits p u then takeDamage u (p_damage p) else u) us)"
    by (simp add: prod_eq_iff hitUnits_fst hitUnits_snd del: hitUnits.simps)
  have 2: "hitProjectiles (p # ps) us =
       (fst (hitUnits p us) # fst (hitProjectiles ps (snd (hitUnits p us))),
        snd (hitProjectiles ps (snd (hitUnits p us))))"
    by (simp add: Let_def case_prod_beta del: hitUnits.simps)
  have 0: "hitProjectiles [] us = ([], us)" by simp
  have 3: "projectileCollisions g =
       g\<lparr>units := snd (hitProjectiles (projectiles g) (units g)),
         projectiles := fst (hitProjectiles (projectiles g) (units g))\<rparr>"
    by (simp add: projectileCollisions_def case_prod_beta)
  show ?thesis using 0 1 2 3 by blast
qed

theorem projectile_hits_every_unit_in_radius_witness:
  "(\<exists>u \<in> set (units exVolley). hits (hd (projectiles exVolley)) u)
   \<and> map health (snd (hitUnits (hd (projectiles exVolley)) (units exVolley))) = [1100, 1100]
   \<and> \<not> p_alive (fst (hitUnits (hd (projectiles exVolley)) (units exVolley)))
   \<and> map health (units (projectileCollisions exVolley)) = [1100, 1100]"
proof -
  let ?p = "hd (projectiles exVolley)"
  have h: "hits ?p (units exVolley ! 0)" "hits ?p (units exVolley ! 1)"
    by (simp_all add: hits_def exVolley_def ex_defs)
  have u: "units exVolley = [units exVolley ! 0, units exVolley ! 1]"
    "projectiles exVolley = [?p]"
    by (simp_all add: exVolley_def ex_defs)
  have d: "health (takeDamage (units exVolley ! 0) (p_damage ?p)) = 1100"
    "health (takeDamage (units exVolley ! 1) (p_damage ?p)) = 1100"
    by (simp_all add: takeDamage_def exVolley_def ex_defs)
  have e: "\<exists>u \<in> set (units exVolley). hits ?p u"
    using h(1) u(1) by (metis list.set_intros(1))
  have m: "map (\<lambda>u. if hits ?p u then takeDamage u (p_damage ?p) else u) (units exVolley)
           = [takeDamage (units exVolley ! 0) (p_damage ?p),
              takeDamage (units exVolley ! 1) (p_damage ?p)]"
    using h by (subst u(1)) simp
  note T = projectile_hits_every_unit_in_radius [of ?p "units exVolley" "[]" exVolley]
  have a: "map health (snd (hitUnits ?p (units exVolley))) = [1100, 1100]"
    using T m d by simp
  have b: "\<not> p_alive (fst (hitUnits ?p (units exVolley)))"
    using T e by simp
  have c: "map health (units (projectileCollisions exVolley)) = [1100, 1100]"
  proof -
    have "hitProjectiles (projectiles exVolley) (units exVolley)
          = (fst (hitUnits ?p (units exVolley)) # fst (hitProjectiles [] (snd (hitUnits ?p (units exVolley)))),
        snd (hitProjectiles [] (snd (hitUnits ?p (units exVolley)))))"
      using T by (subst u(2)) simp
    then have "snd (hitProjectiles (projectiles exVolley) (units exVolley))
          = snd (hitUnits ?p (units exVolley))" by simp
    then show ?thesis using T a by simp
  qed
  show ?thesis using a b c e by blast
qed


section \<open>Melee collisions\<close>

lemma takeDamage_fields [simp]:
  "utype (takeDamage u a) = utype u" "team (takeDamage u a) = team u"
  "damage (takeDamage u a) = damage u" "attackRange (takeDamage u a) = attackRange u"
  "position (takeDamage u a) = position u" "lastAttack (takeDamage u a) = lastAttack u"
  "radius (takeDamage u a) = radius u"
  by (simp_all add: takeDamage_def Let_def)


lemma attack_ranged_Undefined:
  "ranged (units g ! i) \<Longrightarrow> attack i tgt Undefined g = Inl TypeError"
  by (auto simp add: attack_def ranged_def createProjectile_def Let_def)


























lemma ledger_length [simp]: "length (ledger us i j) = length us"
  by (simp add: ledger_def)















section \<open>Projectile flight\<close>


















section \<open>Towers and projectiles\<close>

















lemma map_field_update:
  "f u' = f (us ! i) \<Longrightarrow> map f (us[i := u']) = map f us"
  by (simp add: map_update) (metis list_update_id map_update)

lemma target_takeDamage_utypes:
  "map utype (units (target_takeDamage tgt a g)) = map utype (units g)"
  by (cases tgt) (simp_all add: target_takeDamage_def map_field_update)

lemma attack_towers:
  assumes "attack i tgt GameRef g = Inr g'"
  shows "map utype (units g') = map utype (units g)
         \<and> (towers g' = towers g
            \<or> (\<not> ranged (units g ! i)
               \<and> (\<exists>k. tgt = TowerRef k
                     \<and> towers g' = (towers g)[k := tw_takeDamage (towers g ! k)
                                                      (damage (units g ! i))])))"
proof (cases "ranged (units g ! i)")
  case True
  then have "g' = g\<lparr>projectiles := projectiles g @
                         [\<lparr>p_position = position (units g ! i),
                           p_target = targetPosition g tgt, p_speed = 200,
                           p_damage = damage (units g ! i), p_team = team (units g ! i),
                           p_alive = True, p_type = utype (units g ! i),
                           p_update = UnitProjectileUpdate\<rparr>]\<rparr>"
    using assms by (auto simp add: attack_def createProjectile_def ranged_def Let_def)
  then show ?thesis by simp
next
  case False
  then have g': "g' = target_takeDamage tgt (damage (units g ! i)) g"
    using assms by (auto simp add: attack_def ranged_def Let_def)
  show ?thesis
  proof (cases tgt)
    case (UnitRef j)
    then show ?thesis using g' target_takeDamage_utypes [of tgt]
      by (simp add: target_takeDamage_def)
  next
    case (TowerRef k)
    then show ?thesis using g' False by (simp add: target_takeDamage_def)
  qed
qed

lemma attemptAttack_towers:
  assumes "attemptAttack i now g = Inr g'"
  shows "map utype (units g') = map utype (units g)
         \<and> (towers g' = towers g
            \<or> (\<not> ranged (units g ! i)
               \<and> (\<exists>k. target (units g ! i) = Some (TowerRef k)
                     \<and> towers g' = (towers g)[k := tw_takeDamage (towers g ! k)
                                                      (damage (units g ! i))])))"
proof (cases "\<exists>tgt. fires i now g tgt")
  case False
  then have "g' = g"
    using assms
    by (cases "target (units g ! i)")
       (auto simp add: attemptAttack_def fires_def Let_def split: if_splits)
  then show ?thesis by simp
next
  case True
  then obtain tgt where f: "fires i now g tgt" by blast
  obtain g1 where g1: "attack i tgt GameRef g = Inr g1" using attack_GameRef by blast
  have g': "g' = g1\<lparr>units := (units g1)[i := (units g1 ! i)\<lparr>lastAttack := now\<rparr>]\<rparr>"
    using assms f g1 by (simp add: attemptAttack_def fires_def Let_def)
  have t: "target (units g ! i) = Some tgt" using f by (simp add: fires_def)
  have "map utype (units g') = map utype (units g1)"
    unfolding g' by (simp add: map_field_update)
  moreover have "towers g' = towers g1" unfolding g' by simp
  ultimately show ?thesis using attack_towers [OF g1] t by auto
qed

lemma findTarget_frame:
  "towers (findTarget i g) = towers g"
  "map utype (units (findTarget i g)) = map utype (units g)"
  "map damage (units (findTarget i g)) = map damage (units g)"
  "map alive (units (findTarget i g)) = map alive (units g)"
  by (simp_all add: findTarget_def Let_def map_field_update)

lemma move_frame:
  "towers (move i dt g) = towers g"
  "map utype (units (move i dt g)) = map utype (units g)"
  "map damage (units (move i dt g)) = map damage (units g)"
  "map target (units (move i dt g)) = map target (units g)"
  by (simp_all add: move_def Let_def map_field_update split: option.splits)

lemma nth_map_eq:
  "map f xs = map f ys \<Longrightarrow> i < length ys \<Longrightarrow> f (xs ! i) = f (ys ! i)"
  by (metis length_map nth_map)

lemma unit_update_towers:
  assumes "unit_update dt now i g = Inr g'" and "i < length (units g)"
  shows "map utype (units g') = map utype (units g)
         \<and> (towers g' = towers g
            \<or> (\<not> ranged (units g ! i) \<and> alive (units g ! i)
               \<and> (\<exists>k. newTarget i g = Some (TowerRef k)
                     \<and> towers g' = (towers g)[k := tw_takeDamage (towers g ! k)
                                                      (damage (units g ! i))])))"
proof (cases "alive (units g ! i)")
  case False
  then have "g' = g" using assms(1) by (simp add: unit_update_def)
  then show ?thesis by simp
next
  case True
  let ?g2 = "move i dt (findTarget i g)"
  obtain g3 where g3: "attemptAttack i now ?g2 = Inr g3"
    and g': "g' = g3\<lparr>units := (units g3)[i := (units g3 ! i)
                          \<lparr>animationTime := animationTime (units g3 ! i) + dt\<rparr>]\<rparr>"
    using assms(1) True by (auto simp add: unit_update_def split: sum.splits)
  have u2: "map utype (units ?g2) = map utype (units g)"
    "map damage (units ?g2) = map damage (units g)" "towers ?g2 = towers g"
    by (simp_all add: move_frame findTarget_frame)
  have f: "utype (units ?g2 ! i) = utype (units g ! i)"
    "damage (units ?g2 ! i) = damage (units g ! i)"
    using nth_map_eq [OF u2(1) assms(2)] nth_map_eq [OF u2(2) assms(2)] by simp_all
  have r: "ranged (units ?g2 ! i) = ranged (units g ! i)"
    using f(1) by (simp add: ranged_def)
  have "map target (units ?g2) = map target (units (findTarget i g))"
    by (simp add: move_frame)
  moreover have "i < length (units (findTarget i g))"
    using assms(2) by (simp add: findTarget_def Let_def)
  ultimately have t: "target (units ?g2 ! i) = newTarget i g"
    unfolding newTarget_def by (rule nth_map_eq)
  have k: "map utype (units g') = map utype (units g3)" "towers g' = towers g3"
    unfolding g' by (simp_all add: map_field_update)
  show ?thesis
    using attemptAttack_towers [OF g3] k u2 f(2) r t True by auto
qed
























section \<open>The towers of a game\<close>












section \<open>Target acquisition\<close>



















lemma takeDamage_target [simp]: "target (takeDamage u a) = target u"
  by (simp add: takeDamage_def Let_def)










section \<open>The types of the units of a game\<close>

lemma attack_Undefined_utypes:
  "attack i tgt Undefined g = Inr g' \<Longrightarrow> map utype (units g') = map utype (units g)"
  by (auto simp add: attack_def createProjectile_def Let_def target_takeDamage_utypes
      split: if_splits)

lemma meleePair_utypes:
  assumes "meleePair i j g = Inr g'"
  shows "map utype (units g') = map utype (units g)"
proof (cases "\<not> alive (units g ! j) \<or> team (units g ! i) = team (units g ! j)")
  case True
  then show ?thesis using assms by (simp add: meleePair_def Let_def)
next
  case False
  let ?d = "distanceTo (position (units g ! i)) (position (units g ! j))"
  obtain g1 where g1: "(if ?d < attackRange (units g ! i)
                     then attack i (UnitRef j) Undefined g else Inr g) = Inr g1"
    and g2: "(if ?d < attackRange (units g1 ! j)
                   then attack j (UnitRef i) Undefined g1 else Inr g1) = Inr g'"
    using assms False by (simp add: meleePair_def Let_def split: sum.splits)
  have l1: "map utype (units g1) = map utype (units g)"
    using g1 attack_Undefined_utypes by (cases "?d < attackRange (units g ! i)") auto
  have l2: "map utype (units g') = map utype (units g1)"
    using g2 attack_Undefined_utypes by (cases "?d < attackRange (units g1 ! j)") auto
  show ?thesis using l1 l2 by simp
qed

lemma meleeInner_utypes:
  "meleeInner i j g = Inr g' \<Longrightarrow> map utype (units g') = map utype (units g)"
proof (induction i j g rule: meleeInner.induct)
  case (1 i j g)
  show ?case
  proof (cases "j < length (units g)")
    case True
    have "(case meleePair i j g of Inl e \<Rightarrow> Inl e | Inr g1 \<Rightarrow> meleeInner i (j + 1) g1) = Inr g'"
      using "1.prems" True meleeInner.simps [of i j g] by simp
    then obtain g1 where g1: "meleePair i j g = Inr g1" and r: "meleeInner i (j + 1) g1 = Inr g'"
      by (cases "meleePair i j g") auto
    have "map utype (units g') = map utype (units g1)" using "1.IH" [OF True g1 r] .
    then show ?thesis using meleePair_utypes [OF g1] by simp
  next
    case False
    then show ?thesis using "1.prems" meleeInner.simps [of i j g] by simp
  qed
qed

lemma meleeOuter_utypes:
  "meleeOuter i g = Inr g' \<Longrightarrow> map utype (units g') = map utype (units g)"
proof (induction i g rule: meleeOuter.induct)
  case (1 i g)
  show ?case
  proof (cases "i < length (units g)")
    case False
    then show ?thesis using "1.prems" meleeOuter.simps [of i g] by simp
  next
    case True
    show ?thesis
    proof (cases "alive (units g ! i)")
      case False
      have "meleeOuter (i + 1) g = Inr g'"
        using "1.prems" True False meleeOuter.simps [of i g] by simp
      then show ?thesis using "1.IH"(1) True False by simp
    next
      case al: True
      have "(case meleeInner i (i + 1) g of Inl e \<Rightarrow> Inl e | Inr g1 \<Rightarrow> meleeOuter (i + 1) g1)
            = Inr g'"
        using "1.prems" True al meleeOuter.simps [of i g] by simp
      then obtain g1 where g1: "meleeInner i (i + 1) g = Inr g1"
        and r: "meleeOuter (i + 1) g1 = Inr g'"
        by (cases "meleeInner i (i + 1) g") auto
      have "map utype (units g') = map utype (units g1)" using "1.IH"(2) True al g1 r by simp
      then show ?thesis using meleeInner_utypes [OF g1] by simp
    qed
  qed
qed

lemma hitProjectiles_utypes:
  "map utype (snd (hitProjectiles ps us)) = map utype us"
proof (induction ps arbitrary: us)
  case Nil
  then show ?case by simp
next
  case (Cons p ps)
  have "map utype (snd (hitUnits p us)) = map utype us"
    by (simp add: hitUnits_snd o_def)
  then show ?case using Cons.IH [of "snd (hitUnits p us)"] by (simp add: case_prod_beta)
qed

lemma checkCollisions_utypes:
  assumes "checkCollisions g = Inr g'"
  shows "map utype (units g') = map utype (units g)"
proof -
  obtain g1 where a: "meleeOuter 0 g = Inr g1" and b: "g' = projectileCollisions g1"
    using assms by (auto simp add: checkCollisions_def split: sum.splits)
  have "map utype (units g') = map utype (units g1)"
    unfolding b by (simp add: projectileCollisions_def case_prod_beta hitProjectiles_utypes)
  then show ?thesis using meleeOuter_utypes [OF a] by simp
qed

lemma forEachIndex_utypes:
  assumes "\<forall>i \<in> set is. i < length (units g)"
    and "forEachIndex (unit_update dt now) is g = Inr g'"
  shows "map utype (units g') = map utype (units g)"
  using assms
proof (induction "is" arbitrary: g)
  case Nil
  then show ?case by simp
next
  case (Cons i "is")
  obtain g1 where a: "unit_update dt now i g = Inr g1"
    and b: "forEachIndex (unit_update dt now) is g1 = Inr g'"
    using Cons.prems(2) by (auto split: sum.splits)
  have i: "i < length (units g)" using Cons.prems(1) by simp
  have u: "map utype (units g1) = map utype (units g)"
    using unit_update_towers [OF a i] by simp
  then have "length (units g1) = length (units g)" by (metis length_map)
  then have "\<forall>i \<in> set is. i < length (units g1)" using Cons.prems(1) by simp
  then show ?case using Cons.IH [OF _ b] u by simp
qed

lemma updateTowers_units: "units (updateTowers now g) = units g"
proof -
  have a: "units (tw_update now k g) = units g" for k g
    by (simp add: tw_update_def tw_attemptAttack_def tw_attack_def tw_findTarget_def Let_def
        split: option.splits)
  have "units (fold (tw_update now) ks g) = units g" for ks
    by (induction ks arbitrary: g) (simp_all add: a)
  then show ?thesis by (simp add: updateTowers_def)
qed

lemma update_utypes:
  assumes "update dt now g = Inr g'"
  shows "set (map utype (units g')) \<subseteq> set (map utype (units g))"
proof -
  obtain g1 g2 where a: "updateUnits dt now (updateElixir dt g) = Inr g1"
    and b: "checkCollisions (updateTowers now (updateProjectiles dt g1)) = Inr g2"
    and c: "checkWinConditions (cleanupEntities g2) = Inr g'"
    using assms by (auto simp add: update_def split: sum.splits)
  let ?g0 = "updateElixir dt g"
  have u0: "units ?g0 = units g" by (simp add: updateElixir_def Let_def)
  have 1: "map utype (units g1) = map utype (units g)"
    using forEachIndex_utypes [of "[0 ..< length (units ?g0)]" ?g0 dt now g1] a u0
    by (simp add: updateUnits_def)
  have 2: "map utype (units g2) = map utype (units g1)"
    using checkCollisions_utypes [OF b] by (simp add: updateTowers_units updateProjectiles_def)
  have 3: "units g' = filter alive (units g2)"
    using c by (auto simp add: checkWinConditions_def endGame_def cleanupEntities_def
        split: option.splits if_splits)
  have "set (map utype (units g')) \<subseteq> set (map utype (units g2))"
    unfolding 3 by auto
  then show ?thesis using 1 2 by simp
qed

lemma getUnitData_own: "getUnitData c = Some d \<Longrightarrow> c \<notin> set inheritedKeys"
  by (auto simp add: getUnitData_def inheritedKeys_def Let_def split: if_splits)

lemma tryPlaceUnit_ownTypes: "ownTypes g \<Longrightarrow> ownTypes (tryPlaceUnit g)"
  using getUnitData_own [of "the (selectedCard g)"]
  by (auto simp add: ownTypes_def tryPlaceUnit_def cancelCardPlacement_def spawnUnit_def
      newUnit_def Let_def split: option.splits)

lemma unitTypes_own:
  "k < 4 \<Longrightarrow> [''knight'', ''archer'', ''giant'', ''wizard''] ! k \<notin> set inheritedKeys"
proof -
  assume "k < 4"
  then have "k = 0 \<or> k = 1 \<or> k = 2 \<or> k = 3" by auto
  then show ?thesis by (auto simp add: inheritedKeys_def)
qed

lemma randomInt_index:
  assumes "unitInterval r"
  shows "nat (randomInt r 0 3) < 4"
proof -
  have a: "0 \<le> r * 4" "r * 4 < 4" using assms by (simp_all add: unitInterval_def)
  have "\<lfloor>r * 4\<rfloor> < 4" using a(2) by (simp add: floor_less_iff)
  moreover have "0 \<le> \<lfloor>r * 4\<rfloor>" using a(1) by simp
  ultimately have "nat \<lfloor>r * 4\<rfloor> < 4" by linarith
  then show ?thesis by (simp add: randomInt_def)
qed

lemma enemyAI_ownTypes:
  assumes "ownTypes g" and "unitInterval r1"
  shows "ownTypes (enemyAI r1 r2 r3 g)"
proof -
  have "[''knight'', ''archer'', ''giant'', ''wizard''] ! nat (randomInt r1 0 3)
               \<notin> set inheritedKeys"
    by (rule unitTypes_own [OF randomInt_index [OF assms(2)]])
  then show ?thesis
    using assms(1)
    by (simp add: ownTypes_def enemyAI_def spawnUnit_def newUnit_def Let_def)
qed

lemma gameLoop_ownTypes:
  assumes "ownTypes g" and "gameLoop dt now g = Inr g'"
  shows "ownTypes g'"
proof (cases "running g")
  case False
  then show ?thesis using assms by (simp add: gameLoop_def)
next
  case True
  then have "update dt now g = Inr g'" using assms(2) by (simp add: gameLoop_def)
  then have s: "set (map utype (units g')) \<subseteq> set (map utype (units g))"
    by (rule update_utypes)
  show ?thesis
    unfolding ownTypes_def
  proof
    fix u assume "u \<in> set (units g')"
    then have "utype u \<in> set (map utype (units g))" using s by auto
    then obtain v where "v \<in> set (units g)" "utype v = utype u" by auto
    then show "utype u \<notin> set inheritedKeys" using assms(1) by (auto simp add: ownTypes_def)
  qed
qed

lemma step_ownTypes:
  assumes "ownTypes g" and "step e g = Inr g'"
  shows "ownTypes g'"
proof (cases e)
  case (Start dt now)
  then have "gameLoop dt now (g\<lparr>running := True\<rparr>) = Inr g'"
    using assms(2) by (simp add: start_def)
  moreover have "ownTypes (g\<lparr>running := True\<rparr>)" using assms(1) by (simp add: ownTypes_def)
  ultimately show ?thesis by (rule gameLoop_ownTypes [rotated])
next
  case Stop
  then show ?thesis using assms by (auto simp add: stop_def ownTypes_def)
next
  case (Tick dt now)
  then have "gameLoop dt now g = Inr g'" using assms(2) by simp
  then show ?thesis using assms(1) by (rule gameLoop_ownTypes [rotated])
next
  case (SelectCard c)
  then show ?thesis using assms by (auto simp add: selectCard_def ownTypes_def)
next
  case (MouseMove p)
  then show ?thesis using assms by (auto simp add: handleMouseMove_def ownTypes_def)
next
  case (MouseUp p)
  have "ownTypes (g\<lparr>mousePos := p, isMouseDown := False\<rparr>)"
    using assms(1) by (simp add: ownTypes_def)
  then show ?thesis
    using MouseUp assms(2) tryPlaceUnit_ownTypes [of "g\<lparr>mousePos := p, isMouseDown := False\<rparr>"]
    by (auto simp add: handleMouseUp_def Let_def split: if_splits)
next
  case TouchEnd
  have "ownTypes (g\<lparr>isMouseDown := False\<rparr>)"
    using assms(1) by (simp add: ownTypes_def)
  then show ?thesis
    using TouchEnd assms(2) tryPlaceUnit_ownTypes [of "g\<lparr>isMouseDown := False\<rparr>"]
    by (auto simp add: handleTouchEnd_def Let_def split: if_splits)
next
  case (EnemyAI r1 r2 r3)
  then show ?thesis
    using assms enemyAI_ownTypes [of g r1 r2 r3]
    by (auto simp add: enemyAITimer_def split: if_splits)
qed

lemma run_ownTypes: "ownTypes g \<Longrightarrow> run es g = Inr g' \<Longrightarrow> ownTypes g'"
proof (induction es arbitrary: g)
  case Nil
  then show ?case by simp
next
  case (Cons e es)
  then obtain g1 where a: "step e g = Inr g1" and b: "run es g1 = Inr g'"
    by (auto split: sum.splits)
  show ?case using Cons.IH [OF step_ownTypes [OF Cons.prems(1) a] b] .
qed

text \<open>
  Every unit of a game that a run of events reaches from the constructor has a type
  name that is not inherited: \<open>getUnitStats\<close> is never applied to another.
\<close>

lemma unit_types_never_inherited:
  assumes "run es (newGame w0 h0 cw) = Inr g'" and "u \<in> set (units g')"
  shows "utype u \<notin> set inheritedKeys"
proof -
  have "ownTypes (newGame w0 h0 cw)" by (simp add: ownTypes_def newGame_def)
  then have "ownTypes g'" using assms(1) by (rule run_ownTypes)
  then show ?thesis using assms(2) by (auto simp add: ownTypes_def)
qed

end
